theory Spec2Isabelle
  imports Main "HOL-Library.Char_ord" "HOL-Library.List_Lexorder" "HOL-Library.AList"
begin

chapter \<open>The object map of brave\_sync\<close>

text \<open>
  \<^verbatim>\<open>ObjectMap\<close> keeps, in one key-value store, a forward entry from the prefixed local id of
  a record to a JSON record with its object id and order, a reverse entry from the object
  id to the prefixed local id, and for each record type and action the set of local ids
  that are not synced yet. The public methods post a task to one sequenced task runner; the
  functions modelled here are the ones those tasks run, as functions from the state of the
  object map to a result and the state after. A function that can end the process returns
  a sum, with the crash on the left.
\<close>

section \<open>Composite keys\<close>

text \<open>
  The enumeration \<^verbatim>\<open>ObjectMap::Type\<close> of \<^verbatim>\<open>object_map.h\<close>: the namespace of a local id.
  With its three values the \<^verbatim>\<open>default: NOTREACHED()\<close> branch of \<^verbatim>\<open>ComposeRawLocalId\<close> has
  no value to run on.
\<close>

datatype Type = Unset | Bookmark | History

text \<open>\<^verbatim>\<open>ObjectMap::ComposeRawLocalId\<close>: the prefix character of the category, then the local id.\<close>

fun ComposeRawLocalId :: "Type \<Rightarrow> string \<Rightarrow> string" where
  "ComposeRawLocalId Unset local_id = local_id"
| "ComposeRawLocalId Bookmark local_id = CHR ''b'' # local_id"
| "ComposeRawLocalId History local_id = CHR ''h'' # local_id"

text \<open>
  \<^verbatim>\<open>ObjectMap::SplitRawLocalId\<close>: the two out parameters are returned as the pair
  \<open>(local_id, read_type)\<close>.
\<close>

fun SplitRawLocalId :: "string \<Rightarrow> string \<times> Type" where
  "SplitRawLocalId [] = ([], Unset)"
| "SplitRawLocalId (object_type_char # rest) =
     (if object_type_char = CHR ''b'' then (rest, Bookmark)
      else if object_type_char = CHR ''h'' then (rest, History)
      else (object_type_char # rest, Unset))"

text \<open>A local id whose first character \<^const>\<open>SplitRawLocalId\<close> reads as a category prefix.\<close>

definition looks_prefixed :: "string \<Rightarrow> bool" where
  "looks_prefixed s = (case s of [] \<Rightarrow> False | c # _ \<Rightarrow> c = CHR ''b'' \<or> c = CHR ''h'')"

section \<open>The JSON value library\<close>

text \<open>
  Modelled from the spec: the JSON value library (\<^verbatim>\<open>base::Value\<close>,
  \<^verbatim>\<open>base::JSONReader\<close>, \<^verbatim>\<open>base::JSONWriter\<close>) is an external collaborator and not among
  the sources; the spec assumes a library that parses and serializes a JSON value as a
  list/object tree. The model reads the grammar of RFC 8259, which the source asks for with
  \<^verbatim>\<open>JSON_PARSE_RFC\<close>, over byte strings, and a number keeps its text. The reader and the
  writer copy bytes above \<open>0x7F\<close> as they are: the model is one of ASCII and of well-formed
  UTF-8 text, and says nothing about what the library does with other byte strings.

  A value of the library; a dictionary is an association list with one entry for each key.
\<close>

datatype Value =
    VNone | VBool bool | VNumber string | VString string
  | VList "Value list" | VDict "(string \<times> Value) list"

text \<open>
  The tokens of the JSON grammar.
\<close>

datatype Token =
    T_OBJECT_BEGIN | T_OBJECT_END | T_ARRAY_BEGIN | T_ARRAY_END
  | T_STRING string | T_NUMBER string | T_BOOL_TRUE | T_BOOL_FALSE | T_NULL
  | T_LIST_SEPARATOR | T_OBJECT_PAIR_SEPARATOR

text \<open>
  Character classes, hexadecimal digits, and the UTF-8 encoding of a code point.
\<close>

definition is_whitespace :: "char \<Rightarrow> bool" where
  "is_whitespace c = (c = CHR '' '' \<or> c = CHR 0x09 \<or> c = CHR 0x0A \<or> c = CHR 0x0D)"

definition is_digit :: "char \<Rightarrow> bool" where
  "is_digit c = (CHR ''0'' \<le> c \<and> c \<le> CHR ''9'')"

definition hex_digit :: "char \<Rightarrow> nat option" where
  "hex_digit c =
     (if CHR ''0'' \<le> c \<and> c \<le> CHR ''9'' then Some (of_char c - 48)
      else if CHR ''a'' \<le> c \<and> c \<le> CHR ''f'' then Some (of_char c - 87)
      else if CHR ''A'' \<le> c \<and> c \<le> CHR ''F'' then Some (of_char c - 55)
      else None)"

definition hex4 :: "char \<Rightarrow> char \<Rightarrow> char \<Rightarrow> char \<Rightarrow> nat option" where
  "hex4 a b c d =
     (case (hex_digit a, hex_digit b, hex_digit c, hex_digit d) of
        (Some p, Some q, Some r, Some s) \<Rightarrow> Some (((p * 16 + q) * 16 + r) * 16 + s)
      | _ \<Rightarrow> None)"

definition utf8 :: "nat \<Rightarrow> string" where
  "utf8 n =
     (if n < 0x80 then [char_of n]
      else if n < 0x800 then [char_of (0xC0 + n div 0x40), char_of (0x80 + n mod 0x40)]
      else if n < 0x10000 then
        [char_of (0xE0 + n div 0x1000), char_of (0x80 + n div 0x40 mod 0x40),
         char_of (0x80 + n mod 0x40)]
      else
        [char_of (0xF0 + n div 0x40000), char_of (0x80 + n div 0x1000 mod 0x40),
         char_of (0x80 + n div 0x40 mod 0x40), char_of (0x80 + n mod 0x40)])"

text \<open>
  The character after a backslash, for the two-character escapes.
\<close>

definition simple_escape :: "char \<Rightarrow> char option" where
  "simple_escape e =
     (if e = CHR 0x22 then Some (CHR 0x22)
      else if e = CHR 0x5C then Some (CHR 0x5C)
      else if e = CHR ''/'' then Some (CHR ''/'')
      else if e = CHR ''b'' then Some (CHR 0x08)
      else if e = CHR ''f'' then Some (CHR 0x0C)
      else if e = CHR ''n'' then Some (CHR 0x0A)
      else if e = CHR ''r'' then Some (CHR 0x0D)
      else if e = CHR ''t'' then Some (CHR 0x09)
      else None)"

definition prepend :: "string \<Rightarrow> (string \<times> string) option \<Rightarrow> (string \<times> string) option" where
  "prepend bs r = (case r of None \<Rightarrow> None | Some (s, rest) \<Rightarrow> Some (bs @ s, rest))"

text \<open>
  The text after the \<^verbatim>\<open>u\<close> of a Unicode escape: four hexadecimal digits, and for a high surrogate the escaped low
  surrogate that must follow. The result is the UTF-8 encoding and the rest of the input.
\<close>

definition DecodeUTF16 :: "string \<Rightarrow> (string \<times> string) option" where
  "DecodeUTF16 r =
     (case r of
        h1 # h2 # h3 # h4 # r' \<Rightarrow>
          (case hex4 h1 h2 h3 h4 of
             None \<Rightarrow> None
           | Some hi \<Rightarrow>
               if 0xD800 \<le> hi \<and> hi < 0xDC00 then
                 (case r' of
                    b # u # l1 # l2 # l3 # l4 # r'' \<Rightarrow>
                      if b = CHR 0x5C \<and> u = CHR ''u'' then
                        (case hex4 l1 l2 l3 l4 of
                           None \<Rightarrow> None
                         | Some lo \<Rightarrow>
                             if 0xDC00 \<le> lo \<and> lo < 0xE000 then
                               Some (utf8 (0x10000 + (hi - 0xD800) * 0x400 + (lo - 0xDC00)), r'')
                             else None)
                      else None
                  | _ \<Rightarrow> None)
               else if 0xDC00 \<le> hi \<and> hi < 0xE000 then None
               else Some (utf8 hi, r'))
      | _ \<Rightarrow> None)"

definition ConsumeEscape :: "string \<Rightarrow> (string \<times> string) option" where
  "ConsumeEscape cs =
     (case cs of
        [] \<Rightarrow> None
      | e # r \<Rightarrow>
          if e = CHR ''u'' then DecodeUTF16 r
          else (case simple_escape e of None \<Rightarrow> None | Some b \<Rightarrow> Some ([b], r)))"

text \<open>
  An escape consumes input; the string reader terminates on that.
\<close>

lemma DecodeUTF16_shorter: "DecodeUTF16 r = Some (bs, rest) \<Longrightarrow> length rest < length r"
  unfolding DecodeUTF16_def
  by (auto split: list.splits option.splits if_splits)

lemma ConsumeEscape_shorter: "ConsumeEscape cs = Some (bs, rest) \<Longrightarrow> length rest < length cs"
  unfolding ConsumeEscape_def
  by (auto split: list.splits option.splits if_splits dest: DecodeUTF16_shorter)

text \<open>
  The text after an opening double quote, up to the closing one: the decoded string and
  the rest of the input. Unescaped control characters and an unterminated string are errors.
\<close>

function (sequential) ConsumeString :: "string \<Rightarrow> (string \<times> string) option" where
  "ConsumeString [] = None"
| "ConsumeString (c # cs) =
     (if c = CHR 0x22 then Some ([], cs)
      else if c = CHR 0x5C then
        (case ConsumeEscape cs of
           None \<Rightarrow> None
         | Some (bs, rest) \<Rightarrow> prepend bs (ConsumeString rest))
      else if c < CHR 0x20 then None
      else prepend [c] (ConsumeString cs))"
  by pat_completeness auto
termination
  by (relation "measure length") (auto dest: ConsumeEscape_shorter)

lemma prepend_Some: "prepend bs r = Some (x, rest) \<Longrightarrow> \<exists>y. r = Some (y, rest)"
  by (auto simp: prepend_def split: option.splits)

lemma ConsumeString_shorter: "ConsumeString s = Some (x, rest) \<Longrightarrow> length rest < length s"
proof (induction s arbitrary: x rule: ConsumeString.induct)
  case 1
  then show ?case by simp
next
  case (2 c cs)
  show ?case
  proof (cases "c = CHR 0x22")
    case True
    with "2.prems" show ?thesis by simp
  next
    case q: False
    show ?thesis
    proof (cases "c = CHR 0x5C")
      case True
      with q "2.prems" obtain bs r y where e: "ConsumeEscape cs = Some (bs, r)"
        and y: "ConsumeString r = Some (y, rest)"
        by (auto split: option.splits dest!: prepend_Some)
      from "2.IH"(1) [OF q True e refl y] ConsumeEscape_shorter [OF e]
      show ?thesis by simp
    next
      case False
      with q "2.prems" obtain y where lt: "\<not> c < CHR 0x20" and y: "ConsumeString cs = Some (y, rest)"
        by (auto split: if_splits dest!: prepend_Some)
      from "2.IH"(2) [OF q False lt y] show ?thesis by simp
    qed
  qed
qed

text \<open>
  Numbers: an optional minus sign, an integer part without a leading zero, an optional
  fraction and an optional exponent. The token keeps the text of the number.
\<close>

definition ConsumeDigits :: "string \<Rightarrow> string option" where
  "ConsumeDigits s = (if takeWhile is_digit s = [] then None else Some (dropWhile is_digit s))"

definition ConsumeFraction :: "string \<Rightarrow> string option" where
  "ConsumeFraction s =
     (case s of
        [] \<Rightarrow> Some []
      | d # r \<Rightarrow> if d = CHR ''.'' then ConsumeDigits r else Some s)"

definition ConsumeExponent :: "string \<Rightarrow> string option" where
  "ConsumeExponent s =
     (case s of
        [] \<Rightarrow> Some []
      | e # r \<Rightarrow>
          if e = CHR ''e'' \<or> e = CHR ''E'' then
            (case r of
               [] \<Rightarrow> None
             | g # r' \<Rightarrow> if g = CHR ''+'' \<or> g = CHR ''-'' then ConsumeDigits r' else ConsumeDigits r)
          else Some s)"

definition leading_zero :: "string \<Rightarrow> bool" where
  "leading_zero s = (case s of z # d # _ \<Rightarrow> z = CHR ''0'' \<and> is_digit d | _ \<Rightarrow> False)"

definition ConsumeNumber :: "string \<Rightarrow> (string \<times> string) option" where
  "ConsumeNumber s =
     (let s1 = (case s of [] \<Rightarrow> [] | c # r \<Rightarrow> if c = CHR ''-'' then r else s)
      in if leading_zero s1 then None
         else
           (case ConsumeDigits s1 of
              None \<Rightarrow> None
            | Some s2 \<Rightarrow>
                (case ConsumeFraction s2 of
                   None \<Rightarrow> None
                 | Some s3 \<Rightarrow>
                     (case ConsumeExponent s3 of
                        None \<Rightarrow> None
                      | Some s4 \<Rightarrow> Some (take (length s - length s4) s, s4)))))"

lemma ConsumeDigits_shorter: "ConsumeDigits s = Some r \<Longrightarrow> length r < length s"
proof -
  assume a: "ConsumeDigits s = Some r"
  then have t: "takeWhile is_digit s \<noteq> []" and r: "r = dropWhile is_digit s"
    by (auto simp: ConsumeDigits_def split: if_splits)
  have "length (takeWhile is_digit s) + length (dropWhile is_digit s) = length s"
    by (metis length_append takeWhile_dropWhile_id)
  with t r show ?thesis by (cases "takeWhile is_digit s") auto
qed

lemma ConsumeFraction_le: "ConsumeFraction s = Some r \<Longrightarrow> length r \<le> length s"
  by (auto simp: ConsumeFraction_def split: list.splits if_splits dest: ConsumeDigits_shorter)

lemma ConsumeExponent_le: "ConsumeExponent s = Some r \<Longrightarrow> length r \<le> length s"
  by (auto simp: ConsumeExponent_def split: list.splits if_splits dest: ConsumeDigits_shorter)

lemma ConsumeNumber_shorter:
  assumes "ConsumeNumber s = Some (n, rest)"
  shows "length rest < length s"
proof -
  define s1 where "s1 = (case s of [] \<Rightarrow> [] | c # r \<Rightarrow> if c = CHR ''-'' then r else s)"
  have l1: "length s1 \<le> length s"
    by (auto simp: s1_def split: list.splits)
  from assms obtain s2 s3 where d: "ConsumeDigits s1 = Some s2"
    and f: "ConsumeFraction s2 = Some s3" and e: "ConsumeExponent s3 = Some rest"
    by (auto simp: ConsumeNumber_def Let_def s1_def [symmetric] split: if_splits option.splits)
  from ConsumeDigits_shorter [OF d] ConsumeFraction_le [OF f] ConsumeExponent_le [OF e] l1
  show ?thesis by simp
qed

text \<open>
  The literals \<^verbatim>\<open>true\<close>, \<^verbatim>\<open>false\<close> and \<^verbatim>\<open>null\<close>.
\<close>

definition ConsumeLiteral :: "string \<Rightarrow> (Token \<times> string) option" where
  "ConsumeLiteral s =
     (if take 4 s = ''true'' then Some (T_BOOL_TRUE, drop 4 s)
      else if take 5 s = ''false'' then Some (T_BOOL_FALSE, drop 5 s)
      else if take 4 s = ''null'' then Some (T_NULL, drop 4 s)
      else None)"

lemma ConsumeLiteral_shorter: "ConsumeLiteral s = Some (t, rest) \<Longrightarrow> length rest < length s"
  by (cases s) (auto simp: ConsumeLiteral_def split: if_splits)

definition cons_token :: "Token \<Rightarrow> Token list option \<Rightarrow> Token list option" where
  "cons_token t r = map_option ((#) t) r"

text \<open>
  The tokens of a text, or \<open>None\<close> when some part of it is no token.
\<close>

function (sequential) Tokenize :: "string \<Rightarrow> Token list option" where
  "Tokenize [] = Some []"
| "Tokenize (c # cs) =
     (if is_whitespace c then Tokenize cs
      else if c = CHR ''['' then cons_token T_ARRAY_BEGIN (Tokenize cs)
      else if c = CHR '']'' then cons_token T_ARRAY_END (Tokenize cs)
      else if c = CHR ''{'' then cons_token T_OBJECT_BEGIN (Tokenize cs)
      else if c = CHR ''}'' then cons_token T_OBJECT_END (Tokenize cs)
      else if c = CHR '','' then cons_token T_LIST_SEPARATOR (Tokenize cs)
      else if c = CHR '':'' then cons_token T_OBJECT_PAIR_SEPARATOR (Tokenize cs)
      else if c = CHR 0x22 then
        (case ConsumeString cs of
           None \<Rightarrow> None
         | Some (s, rest) \<Rightarrow> cons_token (T_STRING s) (Tokenize rest))
      else if c = CHR ''-'' \<or> is_digit c then
        (case ConsumeNumber (c # cs) of
           None \<Rightarrow> None
         | Some (n, rest) \<Rightarrow> cons_token (T_NUMBER n) (Tokenize rest))
      else
        (case ConsumeLiteral (c # cs) of
           None \<Rightarrow> None
         | Some (t, rest) \<Rightarrow> cons_token t (Tokenize rest)))"
  by pat_completeness auto
termination
proof (relation "measure length")
  show "wf (measure length)" by simp
next
  fix c cs x2 s rest
  assume "ConsumeString cs = Some x2" "(s, rest) = x2"
  then have "length rest < length cs"
    using ConsumeString_shorter [of cs s rest] by simp
  then show "(rest, c # cs) \<in> measure length" by simp
next
  fix c cs x2 n rest
  assume "ConsumeNumber (c # cs) = Some x2" "(n, rest) = x2"
  then show "(rest, c # cs) \<in> measure length"
    using ConsumeNumber_shorter [of "c # cs" n rest] by simp
next
  fix c cs x2 t rest
  assume "ConsumeLiteral (c # cs) = Some x2" "(t, rest) = x2"
  then show "(rest, c # cs) \<in> measure length"
    using ConsumeLiteral_shorter [of "c # cs" t rest] by simp
qed simp_all

text \<open>
  The parser runs over the tokens with a stack of the containers that are open: a list
  with its elements so far, and a dictionary with its entries so far and, after a key, the
  key that waits for its value. \<open>Expect\<close> is what the grammar allows next. A key that
  occurs twice keeps its last value, and a trailing comma is an error.
\<close>

datatype Frame =
    InList "Value list"
  | InDict "(string \<times> Value) list"
  | InDictKey "(string \<times> Value) list" string

datatype Expect =
    EValue | EValueOrEnd | EKeyOrEnd | EKey | EColon | ECommaOrEnd | EDone Value

fun push_value :: "Value \<Rightarrow> Frame list \<Rightarrow> (Expect \<times> Frame list) option" where
  "push_value v [] = Some (EDone v, [])"
| "push_value v (InList xs # st) = Some (ECommaOrEnd, InList (xs @ [v]) # st)"
| "push_value v (InDictKey kvs k # st) = Some (ECommaOrEnd, InDict (AList.update k v kvs) # st)"
| "push_value v (InDict kvs # st) = None"

fun begin_value :: "Token \<Rightarrow> Frame list \<Rightarrow> (Expect \<times> Frame list) option" where
  "begin_value T_ARRAY_BEGIN st = Some (EValueOrEnd, InList [] # st)"
| "begin_value T_OBJECT_BEGIN st = Some (EKeyOrEnd, InDict [] # st)"
| "begin_value (T_STRING s) st = push_value (VString s) st"
| "begin_value (T_NUMBER n) st = push_value (VNumber n) st"
| "begin_value T_BOOL_TRUE st = push_value (VBool True) st"
| "begin_value T_BOOL_FALSE st = push_value (VBool False) st"
| "begin_value T_NULL st = push_value VNone st"
| "begin_value _ st = None"

fun end_container :: "Token \<Rightarrow> Frame list \<Rightarrow> (Expect \<times> Frame list) option" where
  "end_container T_ARRAY_END (InList xs # st) = push_value (VList xs) st"
| "end_container T_OBJECT_END (InDict kvs # st) = push_value (VDict kvs) st"
| "end_container _ _ = None"

fun begin_key :: "Token \<Rightarrow> Frame list \<Rightarrow> (Expect \<times> Frame list) option" where
  "begin_key (T_STRING k) (InDict kvs # st) = Some (EColon, InDictKey kvs k # st)"
| "begin_key _ _ = None"

fun next_item :: "Frame list \<Rightarrow> (Expect \<times> Frame list) option" where
  "next_item (InList xs # st) = Some (EValue, InList xs # st)"
| "next_item (InDict kvs # st) = Some (EKey, InDict kvs # st)"
| "next_item _ = None"

fun ParseToken :: "Expect \<times> Frame list \<Rightarrow> Token \<Rightarrow> (Expect \<times> Frame list) option" where
  "ParseToken (EValue, st) t = begin_value t st"
| "ParseToken (EValueOrEnd, st) t =
     (if t = T_ARRAY_END then end_container t st else begin_value t st)"
| "ParseToken (EKeyOrEnd, st) t =
     (if t = T_OBJECT_END then end_container t st else begin_key t st)"
| "ParseToken (EKey, st) t = begin_key t st"
| "ParseToken (EColon, st) t = (if t = T_OBJECT_PAIR_SEPARATOR then Some (EValue, st) else None)"
| "ParseToken (ECommaOrEnd, st) t =
     (if t = T_LIST_SEPARATOR then next_item st else end_container t st)"
| "ParseToken (EDone v, st) t = None"

text \<open>
  Modelled from the spec: \<^verbatim>\<open>base::JSONReader::ReadAndReturnError\<close>, which is not among the
  sources. The whole input is one value, anything after it is an error, and an error is
  the result \<open>None\<close> (the null pointer of the source).
\<close>

fun ParseTokens :: "Expect \<times> Frame list \<Rightarrow> Token list \<Rightarrow> Value option" where
  "ParseTokens (e, st) [] = (case e of EDone v \<Rightarrow> Some v | _ \<Rightarrow> None)"
| "ParseTokens p (t # ts) =
     (case ParseToken p t of None \<Rightarrow> None | Some p' \<Rightarrow> ParseTokens p' ts)"

definition JSONReader_Read :: "string \<Rightarrow> Value option" where
  "JSONReader_Read json =
     (case Tokenize json of None \<Rightarrow> None | Some ts \<Rightarrow> ParseTokens (EValue, []) ts)"

text \<open>
  Modelled from the spec: \<^verbatim>\<open>base::JSONWriter::WriteWithOptions\<close> with no options, which is
  not among the sources. A string is written between double quotes, with the double quote, the
  backslash, the control characters and \<open><\<close> escaped; a list or a dictionary is written
  without white space.
\<close>

definition hex_upper :: "nat \<Rightarrow> char" where
  "hex_upper n = ''0123456789ABCDEF'' ! (n mod 16)"

definition EscapeSpecialCodePoint :: "char \<Rightarrow> string" where
  "EscapeSpecialCodePoint c =
     (if c = CHR 0x08 then [CHR 0x5C, CHR ''b'']
      else if c = CHR 0x0C then [CHR 0x5C, CHR ''f'']
      else if c = CHR 0x0A then [CHR 0x5C, CHR ''n'']
      else if c = CHR 0x0D then [CHR 0x5C, CHR ''r'']
      else if c = CHR 0x09 then [CHR 0x5C, CHR ''t'']
      else if c = CHR 0x5C then [CHR 0x5C, CHR 0x5C]
      else if c = CHR 0x22 then [CHR 0x5C, CHR 0x22]
      else if c = CHR ''<'' then [CHR 0x5C] @ ''u003C''
      else if c < CHR 0x20 then
        [CHR 0x5C] @ ''u00'' @ [hex_upper (of_char c div 16), hex_upper (of_char c)]
      else [c])"

definition EscapeJSONString :: "string \<Rightarrow> string" where
  "EscapeJSONString s = [CHR 0x22] @ concat (map EscapeSpecialCodePoint s) @ [CHR 0x22]"

fun join :: "string \<Rightarrow> string list \<Rightarrow> string" where
  "join sep [] = []"
| "join sep [x] = x"
| "join sep (x # y # ys) = x @ sep @ join sep (y # ys)"

fun JSONWriter_Write :: "Value \<Rightarrow> string" where
  "JSONWriter_Write VNone = ''null''"
| "JSONWriter_Write (VBool b) = (if b then ''true'' else ''false'')"
| "JSONWriter_Write (VNumber n) = n"
| "JSONWriter_Write (VString s) = EscapeJSONString s"
| "JSONWriter_Write (VList xs) = ''['' @ join '','' (map JSONWriter_Write xs) @ '']''"
| "JSONWriter_Write (VDict kvs) =
     ''{'' @ join '','' (map (\<lambda>(k, v). EscapeJSONString k @ '':'' @ JSONWriter_Write v) kvs) @ ''}''"

section \<open>The object map\<close>

text \<open>
  What ends the process in the middle of an operation: the dereference of a null pointer,
  and a failed \<^verbatim>\<open>CHECK\<close> of \<^verbatim>\<open>base::Value\<close> (\<^verbatim>\<open>FindKey\<close> on a value that is no
  dictionary, \<^verbatim>\<open>GetString\<close> on a value that is no string, \<^verbatim>\<open>GetList\<close> on a value that is
  no list). A \<^verbatim>\<open>DCHECK\<close> and \<^verbatim>\<open>NOTREACHED\<close> are compiled out of a release build and are
  left out of the model, as is logging; the spec describes the operations that way (a
  category mismatch in the reverse lookup is reported and the value still returned).
\<close>

datatype crash = NullDereference | CheckFailure

text \<open>
  Modelled from the spec: the storage engine (leveldb) is an external collaborator and not
  among the sources. The spec gives the engine \<^verbatim>\<open>Get(key) -> value | not_found\<close>,
  \<^verbatim>\<open>Put(key, value) -> ok | err\<close> and \<^verbatim>\<open>Delete(key) -> ok | err\<close> over byte-string keys.
  The record is the state of the class \<^verbatim>\<open>ObjectMap\<close> of \<^verbatim>\<open>object_map.h\<close> as the functions
  use it, \<^verbatim>\<open>api_version_\<close> and whether \<^verbatim>\<open>level_db_\<close> holds a handle, together with the
  engine behind the handle: \<open>disk\<close> is the content of the store under \<^verbatim>\<open>brave_sync_db\<close>,
  \<open>db_opens\<close> says whether opening it succeeds, and \<open>db_writes k\<close> whether the engine
  accepts a put or a delete of the key \<open>k\<close>. Deleting a key that is not there is accepted
  like any other delete.
\<close>

record ObjectMap =
  api_version :: string
  level_db :: bool
  disk :: "string \<rightharpoonup> string"
  db_opens :: bool
  db_writes :: "string \<Rightarrow> bool"

text \<open>
  \<^verbatim>\<open>ObjectMap::CreateOpenDatabase\<close>: opens the store when no handle is held.
\<close>

definition CreateOpenDatabase :: "ObjectMap \<Rightarrow> bool \<times> ObjectMap" where
  "CreateOpenDatabase s =
     (if level_db s then (True, s)
      else if db_opens s then (True, s\<lparr>level_db := True\<rparr>)
      else (False, s))"

text \<open>
  Modelled from the spec: \<^verbatim>\<open>leveldb::DB::Put\<close> and \<^verbatim>\<open>leveldb::DB::Delete\<close> through the handle, with the status
  returned as a boolean. \<^verbatim>\<open>leveldb::DB::Get\<close> is the lookup \<open>disk s k\<close>; a status that
  is not ok leaves the value empty, as a missing key does.
\<close>

definition Put :: "string \<Rightarrow> string \<Rightarrow> ObjectMap \<Rightarrow> bool \<times> ObjectMap" where
  "Put k v s = (if db_writes s k then (True, s\<lparr>disk := (disk s)(k \<mapsto> v)\<rparr>) else (False, s))"

definition Delete :: "string \<Rightarrow> ObjectMap \<Rightarrow> bool \<times> ObjectMap" where
  "Delete k s = (if db_writes s k then (True, s\<lparr>disk := (disk s)(k := None)\<rparr>) else (False, s))"

text \<open>
  \<^verbatim>\<open>ObjectMap::TraceAll\<close> logs the content of the store through \<^verbatim>\<open>level_db_\<close>, with no
  check that the handle is there.
\<close>

definition TraceAll :: "ObjectMap \<Rightarrow> crash + unit" where
  "TraceAll s = (if level_db s then Inr () else Inl NullDereference)"

text \<open>
  \<^verbatim>\<open>ObjectMap::GetLocalIdByObjectIdOnThread\<close>. Every operation returns the state it leaves,
  since it may have opened the store.
\<close>

definition GetLocalIdByObjectIdOnThread :: "Type \<Rightarrow> string \<Rightarrow> ObjectMap \<Rightarrow> string \<times> ObjectMap" where
  "GetLocalIdByObjectIdOnThread type object_id s =
     (case CreateOpenDatabase s of
        (False, s1) \<Rightarrow> ([], s1)
      | (True, s1) \<Rightarrow>
          (case disk s1 object_id of
             None \<Rightarrow> ([], s1)
           | Some v \<Rightarrow> (fst (SplitRawLocalId v), s1)))"

text \<open>
  \<^verbatim>\<open>ObjectMap::GetRawJsonByLocalId\<close>: the stored text, empty when the store is unavailable or
  holds nothing under the key.
\<close>

definition GetRawJsonByLocalId :: "string \<Rightarrow> ObjectMap \<Rightarrow> string \<times> ObjectMap" where
  "GetRawJsonByLocalId local_id s =
     (case CreateOpenDatabase s of
        (False, s1) \<Rightarrow> ([], s1)
      | (True, s1) \<Rightarrow> (case disk s1 local_id of None \<Rightarrow> ([], s1) | Some json_value \<Rightarrow> (json_value, s1)))"

text \<open>
  Modelled from the spec: \<^verbatim>\<open>base::Value::FindKey\<close> and \<^verbatim>\<open>base::Value::GetString\<close> of the
  JSON value library, with their \<^verbatim>\<open>CHECK\<close>s; \<^verbatim>\<open>FindKey\<close> returns a null pointer for a key
  that the dictionary does not have.
  \<open>read_field\<close> is one assignment \<^verbatim>\<open>*out = val_entry.FindKey(k)->GetString()\<close> of
  \<^verbatim>\<open>GetParsedDataByLocalId\<close>, made when the out pointer is not null.
\<close>

fun FindKey :: "Value \<Rightarrow> string \<Rightarrow> crash + Value option" where
  "FindKey (VDict kvs) k = Inr (map_of kvs k)"
| "FindKey _ k = Inl CheckFailure"

fun GetString :: "Value \<Rightarrow> crash + string" where
  "GetString (VString s) = Inr s"
| "GetString _ = Inl CheckFailure"

definition read_field :: "bool \<Rightarrow> Value \<Rightarrow> string \<Rightarrow> crash + string" where
  "read_field wanted val_entry k =
     (if wanted then
        (case FindKey val_entry k of
           Inl e \<Rightarrow> Inl e
         | Inr None \<Rightarrow> Inl NullDereference
         | Inr (Some v) \<Rightarrow> GetString v)
      else Inr [])"

text \<open>
  \<^verbatim>\<open>ObjectMap::GetParsedDataByLocalId\<close>. The three booleans say which out pointers the
  caller passes; the result is the returned flag with the three strings, which stay empty
  where the source does not assign them.
\<close>

type_synonym parsed = "bool \<times> string \<times> string \<times> string"

definition GetParsedDataByLocalId ::
  "Type \<Rightarrow> string \<Rightarrow> bool \<Rightarrow> bool \<Rightarrow> bool \<Rightarrow> ObjectMap \<Rightarrow> crash + (parsed \<times> ObjectMap)" where
  "GetParsedDataByLocalId type local_id want_object_id want_order want_api_version s =
     (case GetRawJsonByLocalId (ComposeRawLocalId type local_id) s of
        (json, s1) \<Rightarrow>
          if json = [] then
            (case TraceAll s1 of Inl e \<Rightarrow> Inl e | Inr _ \<Rightarrow> Inr ((False, [], [], []), s1))
          else
            (case JSONReader_Read json of
               None \<Rightarrow> Inr ((False, [], [], []), s1)
             | Some (VList [val_entry]) \<Rightarrow>
                 (case read_field want_object_id val_entry ''object_id'' of
                    Inl e \<Rightarrow> Inl e
                  | Inr object_id \<Rightarrow>
                      (case read_field want_order val_entry ''order'' of
                         Inl e \<Rightarrow> Inl e
                       | Inr order \<Rightarrow>
                           (case read_field want_api_version val_entry ''apiVersion'' of
                              Inl e \<Rightarrow> Inl e
                            | Inr version \<Rightarrow> Inr ((True, object_id, order, version), s1))))
             | Some _ \<Rightarrow> Inr ((False, [], [], []), s1)))"

text \<open>
  \<^verbatim>\<open>ObjectMap::GetObjectIdByLocalIdOnThread\<close> and
  \<^verbatim>\<open>ObjectMap::GetOrderByLocalObjectIdOnThread\<close>.
\<close>

definition GetObjectIdByLocalIdOnThread :: "Type \<Rightarrow> string \<Rightarrow> ObjectMap \<Rightarrow> crash + (string \<times> ObjectMap)" where
  "GetObjectIdByLocalIdOnThread type local_id s =
     (case GetParsedDataByLocalId type local_id True False False s of
        Inl e \<Rightarrow> Inl e
      | Inr ((ret, object_id, order, version), s1) \<Rightarrow> Inr (object_id, s1))"

definition GetOrderByLocalObjectIdOnThread :: "Type \<Rightarrow> string \<Rightarrow> ObjectMap \<Rightarrow> crash + (string \<times> ObjectMap)" where
  "GetOrderByLocalObjectIdOnThread type local_id s =
     (case GetParsedDataByLocalId type local_id True True False s of
        Inl e \<Rightarrow> Inl e
      | Inr ((ret, object_id_saved, order, version), s1) \<Rightarrow> Inr (order, s1))"

text \<open>
  \<^verbatim>\<open>ObjectMap::SaveObjectIdRawJson\<close>: the forward put, then the reverse put.
\<close>

definition SaveObjectIdRawJson :: "string \<Rightarrow> string \<Rightarrow> string \<Rightarrow> ObjectMap \<Rightarrow> bool \<times> ObjectMap" where
  "SaveObjectIdRawJson raw_local_id object_id_JSON object_id s =
     (case CreateOpenDatabase s of
        (False, s1) \<Rightarrow> (False, s1)
      | (True, s1) \<Rightarrow>
          (case Put raw_local_id object_id_JSON s1 of
             (False, s2) \<Rightarrow> (False, s2)
           | (True, s2) \<Rightarrow>
               (case Put object_id raw_local_id s2 of
                  (False, s3) \<Rightarrow> (False, s3)
                | (True, s3) \<Rightarrow> (True, s3))))"

text \<open>
  \<^verbatim>\<open>ObjectMap::SaveObjectIdOnThread\<close> and \<^verbatim>\<open>ObjectMap::SaveObjectIdAndOrderInternal\<close> build the
  record text by concatenation; the string literals are the source's, character by
  character.
\<close>

definition SaveObjectIdOnThread :: "Type \<Rightarrow> string \<Rightarrow> string \<Rightarrow> ObjectMap \<Rightarrow> bool \<times> ObjectMap" where
  \<open>SaveObjectIdOnThread type local_id object_id s =
     SaveObjectIdRawJson (ComposeRawLocalId type local_id)
       (''[{"object_id": "'' @ object_id @ ''", apiVersion": "'' @ api_version s @ ''"}]'')
       object_id s\<close>

definition SaveObjectIdAndOrderInternal ::
  "Type \<Rightarrow> string \<Rightarrow> string \<Rightarrow> string \<Rightarrow> ObjectMap \<Rightarrow> bool \<times> ObjectMap" where
  \<open>SaveObjectIdAndOrderInternal type local_id object_id order s =
     SaveObjectIdRawJson (ComposeRawLocalId type local_id)
       (''[{"object_id": "'' @ object_id @ ''", "order": "'' @ order
          @ ''", "apiVersion": "'' @ api_version s @ ''"}]'')
       object_id s\<close>

definition SaveObjectIdAndOrderOnThread ::
  "Type \<Rightarrow> string \<Rightarrow> string \<Rightarrow> string \<Rightarrow> ObjectMap \<Rightarrow> bool \<times> ObjectMap" where
  "SaveObjectIdAndOrderOnThread type local_id object_id order s =
     SaveObjectIdAndOrderInternal type local_id object_id order s"

text \<open>
  \<^verbatim>\<open>ObjectMap::UpdateOrderByLocalObjectIdOnThread\<close>. The guard
  \<^verbatim>\<open>!ret || object_id.empty()\<close> of the source is the two nested tests.
\<close>

definition UpdateOrderByLocalObjectIdOnThread ::
  "Type \<Rightarrow> string \<Rightarrow> string \<Rightarrow> ObjectMap \<Rightarrow> crash + (bool \<times> ObjectMap)" where
  "UpdateOrderByLocalObjectIdOnThread type local_id new_order s =
     (case GetParsedDataByLocalId type local_id True True False s of
        Inl e \<Rightarrow> Inl e
      | Inr ((ret, object_id, old_order, version), s1) \<Rightarrow>
          if ret then
            (if object_id = [] then Inr (False, s1)
             else Inr (SaveObjectIdAndOrderInternal type local_id object_id new_order s1))
          else Inr (False, s1))"

text \<open>
  \<^verbatim>\<open>ObjectMap::SaveSpecialJson\<close> posts \<^verbatim>\<open>SaveObjectIdRawJson\<close> with the empty object id.
\<close>

definition SaveSpecialJson :: "string \<Rightarrow> string \<Rightarrow> ObjectMap \<Rightarrow> bool \<times> ObjectMap" where
  "SaveSpecialJson local_id special_JSON s = SaveObjectIdRawJson local_id special_JSON [] s"

text \<open>
  \<^verbatim>\<open>ObjectMap::DeleteByLocalIdOnThread\<close>.
\<close>

definition DeleteByLocalIdOnThread :: "Type \<Rightarrow> string \<Rightarrow> ObjectMap \<Rightarrow> crash + (bool \<times> ObjectMap)" where
  "DeleteByLocalIdOnThread type local_id s =
     (case CreateOpenDatabase s of
        (False, s1) \<Rightarrow> Inr (False, s1)
      | (True, s1) \<Rightarrow>
          (case GetParsedDataByLocalId type local_id True False False s1 of
             Inl e \<Rightarrow> Inl e
           | Inr ((got_parsed, object_id, order, version), s2) \<Rightarrow>
               (case Delete (ComposeRawLocalId type local_id) s2 of
                  (False, s3) \<Rightarrow> Inr (False, s3)
                | (True, s3) \<Rightarrow>
                    if got_parsed \<and> object_id \<noteq> [] then
                      (case Delete object_id s3 of
                         (False, s4) \<Rightarrow> Inr (False, s4)
                       | (True, s4) \<Rightarrow> Inr (True, s4))
                    else Inr (True, s3))))"

section \<open>The not-synced record set\<close>

text \<open>
  The enumeration \<^verbatim>\<open>ObjectMap::NotSyncedRecordsOperation\<close> of \<^verbatim>\<open>object_map.h\<close>.
\<close>

datatype NotSyncedRecordsOperation = GetItems | AddItems | DeleteItems

text \<open>
  Modelled from the spec: \<^verbatim>\<open>jslib_const::DELETE_RECORD\<close> is declared in
  \<^verbatim>\<open>jslib_const.h\<close>, which is not among the sources. The spec calls it the distinguished
  full-delete action code, and the comment at its use in the source gives its value.
\<close>

definition DELETE_RECORD :: string where
  "DELETE_RECORD = ''2''"

text \<open>
  A \<^verbatim>\<open>std::set<const std::string>\<close> is the list of its elements in ascending order, the
  order in which the source iterates over it; strings compare byte by byte.
  \<open>set_erase\<close> returns the number of elements removed, as \<^verbatim>\<open>std::set::erase\<close> does.
\<close>

definition set_insert :: "string \<Rightarrow> string list \<Rightarrow> string list" where
  "set_insert x xs = (if x \<in> set xs then xs else insort x xs)"

definition set_erase :: "string \<Rightarrow> string list \<Rightarrow> nat \<times> string list" where
  "set_erase x xs = (if x \<in> set xs then (1, remove1 x xs) else (0, xs))"

text \<open>
  \<^verbatim>\<open>ObjectMap::DeserializeList\<close> and \<^verbatim>\<open>ObjectMap::SerializeList\<close>.
\<close>

fun insert_strings :: "Value list \<Rightarrow> string list \<Rightarrow> crash + string list" where
  "insert_strings [] ret = Inr ret"
| "insert_strings (val # vals) ret =
     (case GetString val of
        Inl e \<Rightarrow> Inl e
      | Inr s \<Rightarrow> insert_strings vals (set_insert s ret))"

definition DeserializeList :: "string \<Rightarrow> crash + string list" where
  "DeserializeList raw =
     (case JSONReader_Read raw of
        None \<Rightarrow> Inr []
      | Some (VList vals) \<Rightarrow> insert_strings vals []
      | Some _ \<Rightarrow> Inl CheckFailure)"

definition SerializeList :: "string list \<Rightarrow> string" where
  "SerializeList existing_list = JSONWriter_Write (VList (map VString existing_list))"

text \<open>
  \<^verbatim>\<open>ObjectMap::GetNotSyncedRecords\<close> and \<^verbatim>\<open>ObjectMap::SaveNotSyncedRecords\<close>.
\<close>

definition GetNotSyncedRecords :: "string \<Rightarrow> ObjectMap \<Rightarrow> crash + (string list \<times> ObjectMap)" where
  "GetNotSyncedRecords key s =
     (case GetRawJsonByLocalId key s of
        (raw, s1) \<Rightarrow>
          (case DeserializeList raw of Inl e \<Rightarrow> Inl e | Inr list \<Rightarrow> Inr (list, s1)))"

definition SaveNotSyncedRecords :: "string \<Rightarrow> string list \<Rightarrow> ObjectMap \<Rightarrow> bool \<times> ObjectMap" where
  "SaveNotSyncedRecords key existing_list s =
     SaveObjectIdRawJson key (SerializeList existing_list) [] s"

text \<open>
  The record type of \<^verbatim>\<open>SaveGetDeleteNotSyncedRecordsOnThread\<close>; for \<open>Unset\<close> the
  \<^verbatim>\<open>default: NOTREACHED()\<close> branch leaves it empty.
\<close>

fun recordType :: "Type \<Rightarrow> string" where
  "recordType Bookmark = ''BOOKMARKS''"
| "recordType History = ''HISTORY_SITES''"
| "recordType Unset = []"

text \<open>
  The loop of the \<^verbatim>\<open>DeleteItems\<close> branch over the given ids; the result of
  \<^verbatim>\<open>DeleteByLocalIdOnThread\<close> is not looked at.
\<close>

fun delete_items ::
  "Type \<Rightarrow> bool \<Rightarrow> string list \<Rightarrow> string list \<Rightarrow> ObjectMap \<Rightarrow> crash + (string list \<times> ObjectMap)" where
  "delete_items type clear_local_db [] existing_list s = Inr (existing_list, s)"
| "delete_items type clear_local_db (local_id # ids) existing_list s =
     (case set_erase local_id existing_list of
        (items_removed, remaining) \<Rightarrow>
          if clear_local_db \<and> items_removed \<noteq> 0 then
            (case DeleteByLocalIdOnThread type local_id s of
               Inl e \<Rightarrow> Inl e
             | Inr (deleted, s1) \<Rightarrow> delete_items type clear_local_db ids remaining s1)
          else delete_items type clear_local_db ids remaining s)"

text \<open>
  \<^verbatim>\<open>ObjectMap::SaveGetDeleteNotSyncedRecordsOnThread\<close>.
\<close>

definition SaveGetDeleteNotSyncedRecordsOnThread ::
  "Type \<Rightarrow> string \<Rightarrow> string list \<Rightarrow> NotSyncedRecordsOperation \<Rightarrow> ObjectMap
     \<Rightarrow> crash + (string list \<times> ObjectMap)" where
  "SaveGetDeleteNotSyncedRecordsOnThread type action local_ids operation s =
     (let key = recordType type @ action in
      case GetNotSyncedRecords key s of
        Inl e \<Rightarrow> Inl e
      | Inr (existing_list, s1) \<Rightarrow>
          (case operation of
             GetItems \<Rightarrow> Inr (existing_list, s1)
           | AddItems \<Rightarrow>
               (let added = fold set_insert local_ids existing_list in
                case SaveNotSyncedRecords key added s1 of
                  (True, s2) \<Rightarrow> Inr (added, s2)
                | (False, s2) \<Rightarrow> Inr ([], s2))
           | DeleteItems \<Rightarrow>
               (case delete_items type (action = DELETE_RECORD) local_ids existing_list s1 of
                  Inl e \<Rightarrow> Inl e
                | Inr (remaining, s2) \<Rightarrow>
                    (case SaveNotSyncedRecords key remaining s2 of
                       (True, s3) \<Rightarrow> Inr (remaining, s3)
                     | (False, s3) \<Rightarrow> Inr ([], s3)))))"

section \<open>Notions for the statements\<close>

text \<open>
  A plain string: printable ASCII without the double quote and the backslash. The record
  text is built without escaping, so these are the strings whose record text reads back.
\<close>

definition plain_char :: "char \<Rightarrow> bool" where
  "plain_char c = (c \<noteq> CHR 0x22 \<and> c \<noteq> CHR 0x5C \<and> CHR 0x20 \<le> c \<and> c < CHR 0x80)"

definition plain :: "string \<Rightarrow> bool" where
  "plain s = list_all plain_char s"

text \<open>
  The value an operation returned and the state it left. \<open>state_of\<close> of a crashed
  operation is a store that is closed, empty and cannot be opened.
\<close>

definition result_of :: "crash + ('a \<times> ObjectMap) \<Rightarrow> crash + 'a" where
  "result_of r = map_sum id fst r"

definition state_of :: "crash + ('a \<times> ObjectMap) \<Rightarrow> ObjectMap" where
  "state_of r = (case r of Inl e \<Rightarrow> \<lparr>api_version = [], level_db = False, disk = Map.empty,
                                    db_opens = False, db_writes = (\<lambda>_. False)\<rparr>
                 | Inr (x, s) \<Rightarrow> s)"

text \<open>The store is open or can be opened.\<close>

definition available :: "ObjectMap \<Rightarrow> bool" where
  "available s = (level_db s \<or> db_opens s)"

text \<open>
  An object map on a fresh path with the API version \<open>v\<close> (the empty string when it was
  never set): nothing stored, and an engine that opens and accepts every write.
\<close>

definition fresh :: "string \<Rightarrow> ObjectMap" where
  "fresh v = \<lparr>api_version = v, level_db = False, disk = Map.empty, db_opens = True,
              db_writes = (\<lambda>_. True)\<rparr>"

text \<open>
  An object map with the API version \<open>v\<close> whose store cannot be opened (the engine
  refuses to open the database under the profile path).
\<close>

definition unopenable :: "string \<Rightarrow> ObjectMap" where
  "unopenable v = \<lparr>api_version = v, level_db = False, disk = Map.empty, db_opens = False,
                   db_writes = (\<lambda>_. True)\<rparr>"

text \<open>The text stored under a key, empty when there is none.\<close>

definition stored_text :: "ObjectMap \<Rightarrow> string \<Rightarrow> string" where
  "stored_text s k = (case disk s k of None \<Rightarrow> [] | Some v \<Rightarrow> v)"

text \<open>The lists that stand for a \<^verbatim>\<open>std::set\<close>: ascending, no element twice.\<close>

definition is_set :: "string list \<Rightarrow> bool" where
  "is_set xs = (sorted xs \<and> distinct xs)"

text \<open>
  A device of the proofs: \<open>decode_stored\<close> is \<^const>\<open>GetParsedDataByLocalId\<close> on an open
  store, as a function of the stored text alone.
\<close>

definition decode_stored :: "string option \<Rightarrow> bool \<Rightarrow> bool \<Rightarrow> bool \<Rightarrow> crash + parsed" where
  "decode_stored stored w1 w2 w3 =
     (case stored of
        None \<Rightarrow> Inr (False, [], [], [])
      | Some json \<Rightarrow>
          if json = [] then Inr (False, [], [], [])
          else
            (case JSONReader_Read json of
               None \<Rightarrow> Inr (False, [], [], [])
             | Some (VList [val_entry]) \<Rightarrow>
                 (case read_field w1 val_entry ''object_id'' of
                    Inl e \<Rightarrow> Inl e
                  | Inr object_id \<Rightarrow>
                      (case read_field w2 val_entry ''order'' of
                         Inl e \<Rightarrow> Inl e
                       | Inr order \<Rightarrow>
                           (case read_field w3 val_entry ''apiVersion'' of
                              Inl e \<Rightarrow> Inl e
                            | Inr version \<Rightarrow> Inr (True, object_id, order, version))))
             | Some _ \<Rightarrow> Inr (False, [], [], [])))"

text \<open>
  The entries of the mapping record of a local id that \<^const>\<open>DeleteByLocalIdOnThread\<close> deletes
  on an open store: the forward entry under the composed key and, when the text stored
  there decodes with a non-empty object id, the reverse entry under that object id.
  \<open>reverse_key\<close> is the key of that reverse entry, if there is one.
\<close>

definition reverse_key :: "ObjectMap \<Rightarrow> Type \<Rightarrow> string \<Rightarrow> string option" where
  "reverse_key s c l =
     (case decode_stored (disk s (ComposeRawLocalId c l)) True False False of
        Inl e \<Rightarrow> None
      | Inr (got_parsed, object_id, order, version) \<Rightarrow>
          if got_parsed \<and> object_id \<noteq> [] then Some object_id else None)"

definition record_keys :: "ObjectMap \<Rightarrow> Type \<Rightarrow> string \<Rightarrow> string set" where
  "record_keys s c l = insert (ComposeRawLocalId c l) (set_option (reverse_key s c l))"

text \<open>
  The ids that a \<^verbatim>\<open>DeleteItems\<close> actually removes: those of the given ids that are in the
  stored set, in the order in which the loop visits them.
\<close>

definition removed_ids :: "string list \<Rightarrow> string list \<Rightarrow> string list" where
  "removed_ids ids ex = filter (\<lambda>l. l \<in> set ex) ids"

text \<open>
  What the spec says of a full delete, in its words: for every id actually removed, delete
  that id's mapping record, with the category of the call. \<open>delete_each\<close> runs
  \<^const>\<open>DeleteByLocalIdOnThread\<close> for each id of a list in turn and drops its result, which
  the loop of the source does not look at.
\<close>

fun delete_each :: "Type \<Rightarrow> string list \<Rightarrow> ObjectMap \<Rightarrow> crash + ObjectMap" where
  "delete_each c [] s = Inr s"
| "delete_each c (l # ls) s =
     (case DeleteByLocalIdOnThread c l s of
        Inl e \<Rightarrow> Inl e
      | Inr (deleted, s1) \<Rightarrow> delete_each c ls s1)"

text \<open>
  Forward and reverse entries share one key space. \<open>separate s c ls\<close> says that among the
  records of the ids \<open>ls\<close> no reverse entry lies under the forward key of one of them, so
  that deleting the record of one id leaves the forward entries of the others in place.
\<close>

definition separate :: "ObjectMap \<Rightarrow> Type \<Rightarrow> string list \<Rightarrow> bool" where
  "separate s c ls =
     list_all (\<lambda>l. list_all (\<lambda>l'. reverse_key s c l \<noteq> Some (ComposeRawLocalId c l')) ls) ls"

text \<open>The tokens of a list of strings between its brackets.\<close>

fun string_tokens :: "string list \<Rightarrow> Token list" where
  "string_tokens [] = []"
| "string_tokens [x] = [T_STRING x]"
| "string_tokens (x # y # ys) = T_STRING x # T_LIST_SEPARATOR # string_tokens (y # ys)"

text \<open>
  A store with the Bookmark local ids \<open>1\<close> and \<open>3\<close> mapped to the object ids \<open>o1\<close> and
  \<open>o3\<close>, and with not-synced sets for the actions \<open>2\<close> and \<open>1\<close>.
\<close>

definition example_store :: ObjectMap where
  \<open>example_store =
     \<lparr>api_version = ''v1'', level_db = True,
      disk = [''b1'' \<mapsto> ''[{"object_id": "o1", "order": "1.1", "apiVersion": "v1"}]'',
              ''o1'' \<mapsto> ''b1'',
              ''b3'' \<mapsto> ''[{"object_id": "o3", "order": "1.3", "apiVersion": "v1"}]'',
              ''o3'' \<mapsto> ''b3'',
              ''BOOKMARKS2'' \<mapsto> ''["1","2"]'',
              ''BOOKMARKS1'' \<mapsto> ''["1"]'',
              [] \<mapsto> ''BOOKMARKS1''],
      db_opens = True, db_writes = (\<lambda>_. True)\<rparr>\<close>

section \<open>Lemmas\<close>

subsection \<open>Reading record texts and written lists\<close>

lemmas json_eval =
  JSONReader_Read_def is_whitespace_def is_digit_def cons_token_def prepend_def
  ConsumeLiteral_def ConsumeEscape_def simple_escape_def plain_def plain_char_def

lemma ConsumeString_plain:
  "plain s \<Longrightarrow> ConsumeString (s @ CHR 0x22 # rest) = Some (s, rest)"
  by (induction s) (auto simp: plain_def plain_char_def prepend_def)

lemma Tokenize_record:
  \<open>plain x \<Longrightarrow> plain y \<Longrightarrow> plain z \<Longrightarrow>
   Tokenize (''[{"object_id": "'' @ x @ ''", "order": "'' @ y @ ''", "apiVersion": "'' @ z @ ''"}]'') =
     Some [T_ARRAY_BEGIN, T_OBJECT_BEGIN,
       T_STRING ''object_id'', T_OBJECT_PAIR_SEPARATOR, T_STRING x, T_LIST_SEPARATOR,
       T_STRING ''order'', T_OBJECT_PAIR_SEPARATOR, T_STRING y, T_LIST_SEPARATOR,
       T_STRING ''apiVersion'', T_OBJECT_PAIR_SEPARATOR, T_STRING z,
       T_OBJECT_END, T_ARRAY_END]\<close>
  by (simp add: ConsumeString_plain is_whitespace_def cons_token_def is_digit_def prepend_def)

lemma Read_record:
  \<open>plain x \<Longrightarrow> plain y \<Longrightarrow> plain z \<Longrightarrow>
   JSONReader_Read (''[{"object_id": "'' @ x @ ''", "order": "'' @ y @ ''", "apiVersion": "'' @ z @ ''"}]'') =
     Some (VList [VDict [(''object_id'', VString x), (''order'', VString y),
                         (''apiVersion'', VString z)]])\<close>
  by (simp only: JSONReader_Read_def Tokenize_record option.case) simp

lemma less_16_cases:
  "(m::nat) < 16 \<Longrightarrow>
     m = 0 \<or> m = 1 \<or> m = 2 \<or> m = 3 \<or> m = 4 \<or> m = 5 \<or> m = 6 \<or> m = 7
     \<or> m = 8 \<or> m = 9 \<or> m = 10 \<or> m = 11 \<or> m = 12 \<or> m = 13 \<or> m = 14 \<or> m = 15"
  by presburger

lemma hex_digit_hex_upper: "hex_digit (hex_upper k) = Some (k mod 16)"
proof -
  have "k mod 16 < 16" by simp
  from less_16_cases [OF this] show ?thesis
    by (auto simp: hex_upper_def hex_digit_def)
qed

lemma DecodeUTF16_control:
  assumes "c < CHR 0x20"
  shows "DecodeUTF16 (''00'' @ [hex_upper (of_char c div 16), hex_upper (of_char c)] @ r)
         = Some ([c], r)"
proof -
  have n: "(of_char c :: nat) < 32"
    using assms by (simp add: less_char_def)
  have z: "hex_digit (CHR ''0'') = Some 0"
    by (simp add: hex_digit_def)
  have h: "hex4 (CHR ''0'') (CHR ''0'') (hex_upper (of_char c div 16)) (hex_upper (of_char c))
           = Some (of_char c)"
    using n by (simp add: hex4_def z hex_digit_hex_upper)
  show ?thesis
    using n by (simp add: DecodeUTF16_def h utf8_def)
qed

lemma ConsumeString_escaped_char:
  "ConsumeString (EscapeSpecialCodePoint c @ r) = prepend [c] (ConsumeString r)"
proof (cases "c < CHR 0x20")
  case True
  then have q: "c \<noteq> CHR 0x22" "c \<noteq> CHR 0x5C" "c \<noteq> CHR ''<''"
    by (auto simp: less_char_def)
  show ?thesis
    using True q DecodeUTF16_control [OF True, of r]
    by (simp add: EscapeSpecialCodePoint_def ConsumeEscape_def simple_escape_def)
next
  case False
  have lt: "DecodeUTF16 (''003C'' @ r) = Some (''<'', r)"
    by (simp add: DecodeUTF16_def hex4_def hex_digit_def utf8_def char_of_def bit_iff_odd)
  have ne: "c \<noteq> CHR 0x08" "c \<noteq> CHR 0x0C" "c \<noteq> CHR 0x0A" "c \<noteq> CHR 0x0D" "c \<noteq> CHR 0x09"
    using False by (auto simp: less_char_def)
  show ?thesis
    using False ne lt
    by (simp add: EscapeSpecialCodePoint_def ConsumeEscape_def simple_escape_def)
qed

lemma ConsumeString_escaped:
  "ConsumeString (concat (map EscapeSpecialCodePoint s) @ CHR 0x22 # rest) = Some (s, rest)"
  by (induction s) (simp_all add: ConsumeString_escaped_char prepend_def)

lemma Tokenize_escaped:
  "Tokenize (EscapeJSONString s @ rest) = cons_token (T_STRING s) (Tokenize rest)"
  by (simp add: EscapeJSONString_def is_whitespace_def ConsumeString_escaped)

lemma Tokenize_joined:
  "Tokenize (join '','' (map EscapeJSONString xs) @ '']'') =
     Some (string_tokens xs @ [T_ARRAY_END])"
proof (induction xs rule: string_tokens.induct)
  case 1
  show ?case by (simp add: is_whitespace_def cons_token_def)
next
  case (2 x)
  show ?case by (simp add: Tokenize_escaped is_whitespace_def cons_token_def)
next
  case (3 x y ys)
  have "Tokenize (join '','' (map EscapeJSONString (x # y # ys)) @ '']'') =
        cons_token (T_STRING x)
          (Tokenize ('','' @ join '','' (map EscapeJSONString (y # ys)) @ '']''))"
    by (simp add: Tokenize_escaped)
  also have "Tokenize ('','' @ join '','' (map EscapeJSONString (y # ys)) @ '']'') =
        cons_token T_LIST_SEPARATOR (Tokenize (join '','' (map EscapeJSONString (y # ys)) @ '']''))"
    by (simp add: is_whitespace_def)
  finally show ?case
    using 3 by (simp add: cons_token_def)
qed

lemma ParseTokens_strings:
  "xs \<noteq> [] \<Longrightarrow>
   ParseTokens (EValue, [InList acc]) (string_tokens xs @ [T_ARRAY_END]) =
     Some (VList (acc @ map VString xs))"
  by (induction xs arbitrary: acc rule: string_tokens.induct) simp_all

lemma Read_Write_strings:
  "JSONReader_Read (JSONWriter_Write (VList (map VString xs))) = Some (VList (map VString xs))"
proof -
  have w: "JSONWriter_Write (VList (map VString xs)) =
           CHR ''['' # (join '','' (map EscapeJSONString xs) @ '']'')"
    by (simp add: comp_def)
  have t: "Tokenize (JSONWriter_Write (VList (map VString xs))) =
           Some (T_ARRAY_BEGIN # string_tokens xs @ [T_ARRAY_END])"
    unfolding w by (simp add: is_whitespace_def Tokenize_joined cons_token_def)
  show ?thesis
  proof (cases "xs = []")
    case True
    show ?thesis
      unfolding JSONReader_Read_def t by (simp add: True)
  next
    case False
    then have "ParseTokens (EValueOrEnd, [InList []]) (string_tokens xs @ [T_ARRAY_END]) =
          ParseTokens (EValue, [InList []]) (string_tokens xs @ [T_ARRAY_END])"
      by (cases xs rule: string_tokens.cases) simp_all
    then show ?thesis
      unfolding JSONReader_Read_def t
      using ParseTokens_strings [OF False, of "[]"] by simp
  qed
qed

subsection \<open>Operations on an available store\<close>

lemma CreateOpenDatabase_available:
  "available s \<Longrightarrow> CreateOpenDatabase s = (True, s\<lparr>level_db := True\<rparr>)"
  by (cases s) (auto simp: CreateOpenDatabase_def available_def)

lemma CreateOpenDatabase_unavailable:
  "\<not> available s \<Longrightarrow> CreateOpenDatabase s = (False, s)"
  by (auto simp: CreateOpenDatabase_def available_def)

lemma CreateOpenDatabase_open [simp]:
  "level_db s \<Longrightarrow> CreateOpenDatabase s = (True, s)"
  by (simp add: CreateOpenDatabase_def)

lemma SaveObjectIdRawJson_True:
  "SaveObjectIdRawJson k j oid s = (True, s') \<longleftrightarrow>
     available s \<and> db_writes s k \<and> db_writes s oid
     \<and> s' = s\<lparr>level_db := True, disk := (disk s)(k \<mapsto> j, oid \<mapsto> k)\<rparr>"
  by (cases "available s")
     (auto simp: SaveObjectIdRawJson_def CreateOpenDatabase_available
        CreateOpenDatabase_unavailable Put_def)

lemma GetParsedDataByLocalId_record:
  assumes "level_db s"
    and "disk s (ComposeRawLocalId c l) = Some j"
    and "JSONReader_Read j =
         Some (VList [VDict [(''object_id'', VString x), (''order'', VString y),
                             (''apiVersion'', VString z)]])"
  shows "GetParsedDataByLocalId c l w1 w2 w3 s =
         Inr ((True, if w1 then x else [], if w2 then y else [], if w3 then z else []), s)"
proof -
  have "j \<noteq> []"
    using assms(3) by (auto simp: JSONReader_Read_def)
  with assms show ?thesis
    by (simp add: GetParsedDataByLocalId_def GetRawJsonByLocalId_def read_field_def)
qed

lemma JSONReader_Read_Nil [simp]: "JSONReader_Read [] = None"
  by (simp add: JSONReader_Read_def)

lemmas om_eval =
  fresh_def result_of_def available_def CreateOpenDatabase_def Put_def Delete_def TraceAll_def
  GetLocalIdByObjectIdOnThread_def GetRawJsonByLocalId_def read_field_def
  GetParsedDataByLocalId_def GetObjectIdByLocalIdOnThread_def GetOrderByLocalObjectIdOnThread_def
  SaveObjectIdRawJson_def SaveObjectIdOnThread_def SaveObjectIdAndOrderInternal_def
  SaveObjectIdAndOrderOnThread_def UpdateOrderByLocalObjectIdOnThread_def SaveSpecialJson_def
  DeleteByLocalIdOnThread_def

subsection \<open>Sets as ascending lists\<close>

lemma set_set_insert [simp]: "set (set_insert x xs) = insert x (set xs)"
  by (simp add: set_insert_def set_insort_key insert_absorb)

lemma is_set_set_insert: "is_set xs \<Longrightarrow> is_set (set_insert x xs)"
  by (simp add: is_set_def set_insert_def sorted_insort distinct_insort)

lemma set_fold_set_insert [simp]: "set (fold set_insert ids xs) = set xs \<union> set ids"
  by (induction ids arbitrary: xs) auto

lemma is_set_fold_set_insert: "is_set xs \<Longrightarrow> is_set (fold set_insert ids xs)"
  by (induction ids arbitrary: xs) (simp_all add: is_set_set_insert)

lemma fold_set_insert_idem: "set ids \<subseteq> set xs \<Longrightarrow> fold set_insert ids xs = xs"
  by (induction ids arbitrary: xs) (simp_all add: set_insert_def)

lemma is_set_unique: "is_set xs \<Longrightarrow> is_set ys \<Longrightarrow> set xs = set ys \<Longrightarrow> xs = ys"
  unfolding is_set_def by (metis sorted_distinct_set_unique)

lemma fold_set_insert_Nil: "is_set xs \<Longrightarrow> fold set_insert xs [] = xs"
proof -
  assume a: "is_set xs"
  have "is_set (fold set_insert xs [])"
    by (rule is_set_fold_set_insert) (simp add: is_set_def)
  then show ?thesis
    using a by (rule is_set_unique) simp
qed

lemma insert_strings_strings:
  "insert_strings (map VString xs) acc = Inr (fold set_insert xs acc)"
  by (induction xs arbitrary: acc) simp_all

lemma insert_strings_is_set:
  "insert_strings vs acc = Inr xs \<Longrightarrow> is_set acc \<Longrightarrow> is_set xs"
proof (induction vs arbitrary: acc)
  case Nil
  then show ?case by simp
next
  case (Cons v vs)
  then show ?case
    by (cases v) (auto simp: is_set_set_insert)
qed

lemma DeserializeList_is_set: "DeserializeList raw = Inr xs \<Longrightarrow> is_set xs"
  by (auto simp: DeserializeList_def is_set_def
      split: option.splits Value.splits dest!: insert_strings_is_set)

lemma DeserializeList_SerializeList:
  "is_set xs \<Longrightarrow> DeserializeList (SerializeList xs) = Inr xs"
  unfolding DeserializeList_def SerializeList_def Read_Write_strings
  by (simp add: insert_strings_strings fold_set_insert_Nil)

lemma GetRawJsonByLocalId_available:
  "available s \<Longrightarrow> GetRawJsonByLocalId k s = (stored_text s k, s\<lparr>level_db := True\<rparr>)"
  by (simp add: GetRawJsonByLocalId_def CreateOpenDatabase_available stored_text_def
      split: option.splits)

lemma recordType_nonempty: "c \<noteq> Unset \<Longrightarrow> recordType c \<noteq> []"
  by (cases c) simp_all

subsection \<open>Decoding on an open store and the delete loop\<close>

lemma GetParsedDataByLocalId_open:
  assumes "level_db s"
  shows "GetParsedDataByLocalId c l w1 w2 w3 s =
         (case decode_stored (disk s (ComposeRawLocalId c l)) w1 w2 w3 of
            Inl e \<Rightarrow> Inl e
          | Inr p \<Rightarrow> Inr (p, s))"
  using assms
  by (simp add: GetParsedDataByLocalId_def GetRawJsonByLocalId_def TraceAll_def
      decode_stored_def
      split: option.splits Value.splits list.splits sum.splits)

lemma isl_GetParsedDataByLocalId:
  "level_db s \<Longrightarrow>
   isl (GetParsedDataByLocalId c l w1 w2 w3 s)
     = isl (decode_stored (disk s (ComposeRawLocalId c l)) w1 w2 w3)"
  by (cases "decode_stored (disk s (ComposeRawLocalId c l)) w1 w2 w3")
     (simp_all add: GetParsedDataByLocalId_open)

lemma decode_stored_None [simp]: "decode_stored None w1 w2 w3 = Inr (False, [], [], [])"
  by (simp add: decode_stored_def)

lemma ComposeRawLocalId_inject:
  "ComposeRawLocalId c l = ComposeRawLocalId c l' \<longleftrightarrow> l = l'"
  by (cases c) simp_all

lemma DeleteByLocalIdOnThread_open:
  assumes "level_db s" "\<forall>k. db_writes s k"
    and "\<not> isl (decode_stored (disk s (ComposeRawLocalId c l)) True False False)"
  shows "DeleteByLocalIdOnThread c l s =
         Inr (True, s\<lparr>disk := disk s |` (- record_keys s c l)\<rparr>)"
proof -
  let ?k = "ComposeRawLocalId c l"
  from assms(3) obtain gp x y z where
    d: "decode_stored (disk s ?k) True False False = Inr (gp, x, y, z)"
    by (cases "decode_stored (disk s ?k) True False False") auto
  have p: "GetParsedDataByLocalId c l True False False s = Inr ((gp, x, y, z), s)"
    by (simp add: GetParsedDataByLocalId_open [OF assms(1)] d)
  have r: "DeleteByLocalIdOnThread c l s =
           Inr (True, if gp \<and> x \<noteq> [] then s\<lparr>disk := (disk s)(?k := None, x := None)\<rparr>
                      else s\<lparr>disk := (disk s)(?k := None)\<rparr>)"
    using assms(1,2) by (simp add: DeleteByLocalIdOnThread_def p Delete_def)
  have k: "record_keys s c l = (if gp \<and> x \<noteq> [] then {?k, x} else {?k})"
    by (simp add: record_keys_def reverse_key_def d)
  have m: "(disk s)(?k := None, x := None) = disk s |` (- {?k, x})"
    "(disk s)(?k := None) = disk s |` (- {?k})"
    by (auto simp: restrict_map_def fun_eq_iff)
  show ?thesis
    unfolding r k using m by simp
qed

lemma delete_items_delete_each:
  "distinct ids \<Longrightarrow> distinct xs \<Longrightarrow>
   delete_items c True ids xs s =
     (case delete_each c (removed_ids ids xs) s of
        Inl e \<Rightarrow> Inl e
      | Inr s' \<Rightarrow> Inr (fold remove1 ids xs, s'))"
proof (induction ids arbitrary: xs s)
  case Nil
  show ?case by (simp add: removed_ids_def)
next
  case (Cons i ids)
  from Cons.prems have di: "distinct ids" and ni: "i \<notin> set ids"
    by simp_all
  show ?case
  proof (cases "i \<in> set xs")
    case False
    then have e: "fold remove1 (i # ids) xs = fold remove1 ids xs"
      "removed_ids (i # ids) xs = removed_ids ids xs"
      by (simp_all add: remove1_idem removed_ids_def)
    have "delete_items c True (i # ids) xs s = delete_items c True ids xs s"
      using False by (simp add: set_erase_def)
    then show ?thesis
      unfolding e using Cons.IH [OF di Cons.prems(2), of s] by simp
  next
    case True
    have f: "removed_ids ids (remove1 i xs) = removed_ids ids xs"
      unfolding removed_ids_def
      using ni Cons.prems(2) by (auto intro!: filter_cong)
    have dx: "distinct (remove1 i xs)"
      using Cons.prems(2) by simp
    show ?thesis
    proof (cases "DeleteByLocalIdOnThread c i s")
      case (Inl e)
      with True show ?thesis
        by (simp add: set_erase_def removed_ids_def)
    next
      case (Inr r)
      obtain d s1 where r: "r = (d, s1)" by (cases r)
      have e: "fold remove1 (i # ids) xs = fold remove1 ids (remove1 i xs)"
        "removed_ids (i # ids) xs = i # removed_ids ids xs"
        using True by (simp_all add: removed_ids_def)
      have "delete_items c True (i # ids) xs s = delete_items c True ids (remove1 i xs) s1"
        using True Inr r by (simp add: set_erase_def)
      then show ?thesis
        unfolding e using Cons.IH [OF di dx, of s1] Inr r f by simp
    qed
  qed
qed

lemma delete_each_disk:
  assumes "level_db s" "\<forall>k. db_writes s k" "distinct ls"
    and "\<forall>l \<in> set ls. \<not> isl (decode_stored (disk s (ComposeRawLocalId c l)) True False False)"
    and "separate s c ls"
  shows "delete_each c ls s =
         Inr (s\<lparr>disk := disk s |` (- (\<Union>l \<in> set ls. record_keys s c l))\<rparr>)"
  using assms
proof (induction ls arbitrary: s)
  case Nil
  show ?case by simp
next
  case (Cons l ls)
  let ?s1 = "s\<lparr>disk := disk s |` (- record_keys s c l)\<rparr>"
  have del: "DeleteByLocalIdOnThread c l s = Inr (True, ?s1)"
    using Cons.prems by (intro DeleteByLocalIdOnThread_open) simp_all
  have same: "disk ?s1 (ComposeRawLocalId c l') = disk s (ComposeRawLocalId c l')"
    if "l' \<in> set ls" for l'
  proof -
    from that Cons.prems(3) have "l' \<noteq> l" by auto
    moreover from that Cons.prems(5) have "reverse_key s c l \<noteq> Some (ComposeRawLocalId c l')"
      by (simp add: separate_def list_all_iff)
    ultimately have "ComposeRawLocalId c l' \<notin> record_keys s c l"
      by (auto simp: record_keys_def ComposeRawLocalId_inject)
    then show ?thesis by simp
  qed
  then have rk: "reverse_key ?s1 c l' = reverse_key s c l'" if "l' \<in> set ls" for l'
    using that by (simp add: reverse_key_def)
  then have keys: "record_keys ?s1 c l' = record_keys s c l'" if "l' \<in> set ls" for l'
    using that by (simp add: record_keys_def)
  have p1: "level_db ?s1" "\<forall>k. db_writes ?s1 k" "distinct ls"
    using Cons.prems by simp_all
  have p2: "\<forall>l' \<in> set ls.
      \<not> isl (decode_stored (disk ?s1 (ComposeRawLocalId c l')) True False False)"
    using Cons.prems(4) same by simp
  have p3: "separate ?s1 c ls"
    using Cons.prems(5) rk by (simp add: separate_def list_all_iff)
  have u: "(\<Union>l' \<in> set ls. record_keys ?s1 c l') = (\<Union>l' \<in> set ls. record_keys s c l')"
    using keys by simp
  have "delete_each c (l # ls) s = delete_each c ls ?s1"
    by (simp add: del)
  also have "\<dots> = Inr (?s1\<lparr>disk := disk ?s1 |` (- (\<Union>l' \<in> set ls. record_keys ?s1 c l'))\<rparr>)"
    by (rule Cons.IH [OF p1 p2 p3])
  also have "\<dots> = Inr (s\<lparr>disk := disk s |` (- (\<Union>l' \<in> set (l # ls). record_keys s c l'))\<rparr>)"
    unfolding u by (simp add: Int_commute Un_commute)
  finally show ?case .
qed

lemma record_keys_shrunk:
  assumes "disk s' (ComposeRawLocalId c l) = None
           \<or> disk s' (ComposeRawLocalId c l) = disk s (ComposeRawLocalId c l)"
  shows "record_keys s' c l \<subseteq> record_keys s c l"
  using assms by (auto simp: record_keys_def reverse_key_def)

lemma delete_each_bounds:
  assumes "level_db s" "\<forall>k. db_writes s k"
    and "\<forall>l \<in> set ls. \<not> isl (decode_stored (disk s (ComposeRawLocalId c l)) True False False)"
  shows "\<exists>s'. delete_each c ls s = Inr s' \<and> level_db s' \<and> db_writes s' = db_writes s
              \<and> (\<forall>l \<in> set ls. disk s' (ComposeRawLocalId c l) = None)
              \<and> (\<forall>k. disk s' k = None \<or> disk s' k = disk s k)
              \<and> (\<forall>k. k \<notin> (\<Union>l \<in> set ls. record_keys s c l) \<longrightarrow> disk s' k = disk s k)"
  using assms
proof (induction ls arbitrary: s)
  case Nil
  from Nil.prems(1) show ?case by simp
next
  case (Cons l ls)
  let ?s1 = "s\<lparr>disk := disk s |` (- record_keys s c l)\<rparr>"
  have del: "DeleteByLocalIdOnThread c l s = Inr (True, ?s1)"
    using Cons.prems by (intro DeleteByLocalIdOnThread_open) simp_all
  have sh1: "disk ?s1 k = None \<or> disk ?s1 k = disk s k" for k
    by (simp add: restrict_map_def)
  have gone1: "disk ?s1 (ComposeRawLocalId c l) = None"
    by (simp add: record_keys_def)
  have out1: "disk ?s1 k = disk s k" if "k \<notin> record_keys s c l" for k
    using that by simp
  have p2: "\<forall>l' \<in> set ls.
      \<not> isl (decode_stored (disk ?s1 (ComposeRawLocalId c l')) True False False)"
  proof
    fix l'
    assume "l' \<in> set ls"
    with Cons.prems(3)
    have n: "\<not> isl (decode_stored (disk s (ComposeRawLocalId c l')) True False False)"
      by simp
    from sh1 [of "ComposeRawLocalId c l'"]
    show "\<not> isl (decode_stored (disk ?s1 (ComposeRawLocalId c l')) True False False)"
      using n by auto
  qed
  have "level_db ?s1" "\<forall>k. db_writes ?s1 k"
    using Cons.prems by simp_all
  from Cons.IH [OF this p2] obtain s' where
    e: "delete_each c ls ?s1 = Inr s'" and l': "level_db s'"
    and w': "db_writes s' = db_writes ?s1"
    and g': "\<forall>l' \<in> set ls. disk s' (ComposeRawLocalId c l') = None"
    and sh': "\<forall>k. disk s' k = None \<or> disk s' k = disk ?s1 k"
    and out': "\<forall>k. k \<notin> (\<Union>l' \<in> set ls. record_keys ?s1 c l') \<longrightarrow> disk s' k = disk ?s1 k"
    by blast
  have run: "delete_each c (l # ls) s = Inr s'"
    by (simp add: del e)
  have w: "db_writes s' = db_writes s"
    using w' by simp
  have g: "\<forall>l' \<in> set (l # ls). disk s' (ComposeRawLocalId c l') = None"
  proof
    fix l'
    assume "l' \<in> set (l # ls)"
    then consider "l' = l" | "l' \<in> set ls" by auto
    then show "disk s' (ComposeRawLocalId c l') = None"
    proof cases
      case 1
      with sh' [rule_format, of "ComposeRawLocalId c l"] gone1 show ?thesis by auto
    next
      case 2
      with g' show ?thesis by blast
    qed
  qed
  have sh: "\<forall>k. disk s' k = None \<or> disk s' k = disk s k"
  proof
    fix k
    from sh' [rule_format, of k] sh1 [of k]
    show "disk s' k = None \<or> disk s' k = disk s k" by auto
  qed
  have sub: "(\<Union>l' \<in> set ls. record_keys ?s1 c l') \<subseteq> (\<Union>l' \<in> set ls. record_keys s c l')"
    using record_keys_shrunk [OF sh1] by blast
  have out: "\<forall>k. k \<notin> (\<Union>l' \<in> set (l # ls). record_keys s c l') \<longrightarrow> disk s' k = disk s k"
  proof (intro allI impI)
    fix k
    assume k: "k \<notin> (\<Union>l' \<in> set (l # ls). record_keys s c l')"
    then have "k \<notin> record_keys s c l" and "k \<notin> (\<Union>l' \<in> set ls. record_keys ?s1 c l')"
      using sub by auto
    with out' out1 [of k] show "disk s' k = disk s k"
      by simp
  qed
  from run l' w g sh out show ?case
    by blast
qed

lemma delete_items_keep:
  "delete_items c False ids xs s = Inr (fold remove1 ids xs, s)"
  by (induction ids arbitrary: xs) (simp_all add: set_erase_def remove1_idem)

lemma set_fold_remove1: "distinct xs \<Longrightarrow> set (fold remove1 ids xs) = set xs - set ids"
  by (induction ids arbitrary: xs) (auto simp: distinct_remove1)

lemma is_set_fold_remove1: "is_set xs \<Longrightarrow> is_set (fold remove1 ids xs)"
  by (induction ids arbitrary: xs) (simp_all add: is_set_def sorted_remove1)

section \<open>Claims\<close>

subsection \<open>C1: splitting a composed key\<close>

text \<open>
  C1, as stated, fails: an \<open>Unset\<close> local id that starts with \<open>b\<close> is composed without
  a prefix, and splitting reads its first character as the Bookmark prefix.
\<close>

theorem C1_counterexample:
  "SplitRawLocalId (ComposeRawLocalId Unset ''b1'') = (''1'', Bookmark)
   \<and> SplitRawLocalId (ComposeRawLocalId Unset ''b1'') \<noteq> (''b1'', Unset)"
  by simp

text \<open>
  C1, amended: splitting a composed key gives back the local id and the category for
  the categories Bookmark and History, and for Unset when the local id does not start
  with \<open>b\<close> or \<open>h\<close> (the empty local id included); and in no other case.
\<close>

theorem C1_split_compose:
  "SplitRawLocalId (ComposeRawLocalId c s) = (s, c) \<longleftrightarrow> c \<noteq> Unset \<or> \<not> looks_prefixed s"
  by (cases c; cases s) (auto simp: looks_prefixed_def)

theorem C1_split_compose_witness:
  "\<not> looks_prefixed ''17''
   \<and> SplitRawLocalId (ComposeRawLocalId Unset ''17'') = (''17'', Unset)
   \<and> SplitRawLocalId (ComposeRawLocalId Bookmark ''b1'') = (''b1'', Bookmark)
   \<and> looks_prefixed ''h2''
   \<and> SplitRawLocalId (ComposeRawLocalId Unset ''h2'') \<noteq> (''h2'', Unset)"
  using C1_split_compose [of Unset "''17''"] C1_split_compose [of Bookmark "''b1''"]
    C1_split_compose [of Unset "''h2''"]
  by (simp add: looks_prefixed_def)

subsection \<open>C2: reading back a saved object id and order\<close>

text \<open>
  C2, as stated, fails. With the object id \<open>b1\<close> for the Bookmark local id \<open>1\<close> the reverse
  entry overwrites the forward record, and the object id read back is empty. With the
  \<open>Unset\<close> local id \<open>b1\<close> the reverse lookup returns \<open>1\<close>. With a double quote in the
  object id the record text is not JSON, and the object id read back is empty.
\<close>

theorem C2_counterexample:
  \<open>fst (SaveObjectIdAndOrderOnThread Bookmark ''1'' ''b1'' ''1.1'' (fresh ''v1''))
   \<and> result_of (GetObjectIdByLocalIdOnThread Bookmark ''1''
         (snd (SaveObjectIdAndOrderOnThread Bookmark ''1'' ''b1'' ''1.1'' (fresh ''v1'')))) = Inr []
   \<and> fst (SaveObjectIdAndOrderOnThread Unset ''b1'' ''obj'' ''1.1'' (fresh ''v1''))
   \<and> fst (GetLocalIdByObjectIdOnThread Unset ''obj''
         (snd (SaveObjectIdAndOrderOnThread Unset ''b1'' ''obj'' ''1.1'' (fresh ''v1'')))) = ''1''
   \<and> fst (SaveObjectIdAndOrderOnThread Bookmark ''1'' ''o"x'' ''1.1'' (fresh ''v1''))
   \<and> result_of (GetObjectIdByLocalIdOnThread Bookmark ''1''
         (snd (SaveObjectIdAndOrderOnThread Bookmark ''1'' ''o"x'' ''1.1'' (fresh ''v1'')))) = Inr []\<close>
  by (simp add: om_eval json_eval)

text \<open>
  C2, amended: when \<^verbatim>\<open>save_object_id_and_order(c, L, O, Ord)\<close> succeeds, the three lookups
  return \<open>O\<close>, \<open>Ord\<close> and \<open>L\<close>, provided that \<open>O\<close>, \<open>Ord\<close> and the API version
  are plain (printable ASCII without the double quote and the backslash, which the record
  text does not escape), that \<open>O\<close> differs from the composed key of \<open>(c, L)\<close> (forward and
  reverse entries share one key space), and that \<open>c\<close> is not \<open>Unset\<close> or \<open>L\<close> does not start
  with a prefix character.
\<close>

theorem C2_save_then_get:
  assumes saved: "SaveObjectIdAndOrderOnThread c l x y s = (True, s')"
    and pl: "plain x" "plain y" "plain (api_version s)"
    and distinct_keys: "x \<noteq> ComposeRawLocalId c l"
    and prefix: "c \<noteq> Unset \<or> \<not> looks_prefixed l"
  shows "GetObjectIdByLocalIdOnThread c l s' = Inr (x, s')
       \<and> GetOrderByLocalObjectIdOnThread c l s' = Inr (y, s')
       \<and> GetLocalIdByObjectIdOnThread c x s' = (l, s')"
proof -
  let ?k = "ComposeRawLocalId c l"
  let ?j = \<open>''[{"object_id": "'' @ x @ ''", "order": "'' @ y @ ''", "apiVersion": "''
            @ api_version s @ ''"}]''\<close>
  from saved have s': "s' = s\<lparr>level_db := True, disk := (disk s)(?k \<mapsto> ?j, x \<mapsto> ?k)\<rparr>"
    by (simp add: SaveObjectIdAndOrderOnThread_def SaveObjectIdAndOrderInternal_def
        SaveObjectIdRawJson_True)
  have op: "level_db s'" and fw: "disk s' ?k = Some ?j" and rv: "disk s' x = Some ?k"
    using distinct_keys by (simp_all add: s')
  have av: "api_version s' = api_version s" by (simp add: s')
  have parsed: "GetParsedDataByLocalId c l w1 w2 w3 s' =
      Inr ((True, if w1 then x else [], if w2 then y else [],
            if w3 then api_version s else []), s')" for w1 w2 w3
    by (rule GetParsedDataByLocalId_record [OF op fw Read_record [OF pl]])
  have "SplitRawLocalId ?k = (l, c)"
    using prefix by (cases c; cases l) (auto simp: looks_prefixed_def)
  then have "GetLocalIdByObjectIdOnThread c x s' = (l, s')"
    using op rv by (simp add: GetLocalIdByObjectIdOnThread_def)
  then show ?thesis
    by (simp add: GetObjectIdByLocalIdOnThread_def GetOrderByLocalObjectIdOnThread_def parsed)
qed

theorem C2_save_then_get_witness:
  "fst (SaveObjectIdAndOrderOnThread Bookmark ''123'' ''obj-abc'' ''1.1.1'' (fresh ''v1''))
   \<and> plain ''obj-abc'' \<and> plain ''1.1.1'' \<and> plain (api_version (fresh ''v1''))
   \<and> ''obj-abc'' \<noteq> ComposeRawLocalId Bookmark ''123''
   \<and> result_of (GetObjectIdByLocalIdOnThread Bookmark ''123''
         (snd (SaveObjectIdAndOrderOnThread Bookmark ''123'' ''obj-abc'' ''1.1.1'' (fresh ''v1''))))
       = Inr ''obj-abc''
   \<and> result_of (GetOrderByLocalObjectIdOnThread Bookmark ''123''
         (snd (SaveObjectIdAndOrderOnThread Bookmark ''123'' ''obj-abc'' ''1.1.1'' (fresh ''v1''))))
       = Inr ''1.1.1''
   \<and> fst (GetLocalIdByObjectIdOnThread Bookmark ''obj-abc''
         (snd (SaveObjectIdAndOrderOnThread Bookmark ''123'' ''obj-abc'' ''1.1.1'' (fresh ''v1''))))
       = ''123''"
proof -
  let ?r = "SaveObjectIdAndOrderOnThread Bookmark ''123'' ''obj-abc'' ''1.1.1'' (fresh ''v1'')"
  have ok: "fst ?r"
    by (simp add: om_eval)
  then have saved: "?r = (True, snd ?r)"
    by (cases ?r) simp
  have pl: "plain ''obj-abc''" "plain ''1.1.1''" "plain (api_version (fresh ''v1''))"
    by (simp_all add: plain_def plain_char_def fresh_def)
  have "(Bookmark \<noteq> Unset \<or> \<not> looks_prefixed ''123'')" by simp
  from C2_save_then_get [OF saved pl _ this] ok pl show ?thesis
    by (simp add: result_of_def)
qed

subsection \<open>C3: the record written by \<^verbatim>\<open>save_object_id\<close>\<close>

text \<open>
  C3 fails on the code. \<^verbatim>\<open>SaveObjectIdOnThread\<close> leaves out the opening quote of the
  \<^verbatim>\<open>apiVersion\<close> key, so the text it stores is not JSON: the save reports success, the
  reader rejects the stored text, and the object id read back is empty. The save also
  succeeds when the API version is unset.
\<close>

theorem C3_save_object_id_unreadable:
  \<open>fst (SaveObjectIdOnThread Bookmark ''1'' ''obj'' (fresh ''v1''))
   \<and> disk (snd (SaveObjectIdOnThread Bookmark ''1'' ''obj'' (fresh ''v1''))) ''b1''
       = Some ''[{"object_id": "obj", apiVersion": "v1"}]''
   \<and> JSONReader_Read ''[{"object_id": "obj", apiVersion": "v1"}]'' = None
   \<and> result_of (GetObjectIdByLocalIdOnThread Bookmark ''1''
         (snd (SaveObjectIdOnThread Bookmark ''1'' ''obj'' (fresh ''v1'')))) = Inr []
   \<and> fst (SaveObjectIdOnThread Bookmark ''1'' ''obj'' (fresh []))\<close>
  by (simp add: om_eval json_eval)

subsection \<open>C4: decoding a record that lacks a requested field\<close>

text \<open>
  C4 fails on the code. \<^verbatim>\<open>GetParsedDataByLocalId\<close> dereferences the pointer that
  \<^verbatim>\<open>FindKey\<close> returns without a null check. For the well-formed record
  \<^verbatim>\<open>[{"object_id": "obj"}]\<close> under the key \<open>b1\<close> the object id is decoded, and asking for
  the order ends in a null dereference instead of the empty string; for a record without
  \<^verbatim>\<open>object_id\<close> the decode does not fail either, it dereferences null.
\<close>

theorem C4_absent_field_null_dereference:
  \<open>fst (SaveSpecialJson ''b1'' ''[{"object_id": "obj"}]'' (fresh ''v1''))
   \<and> JSONReader_Read ''[{"object_id": "obj"}]'' = Some (VList [VDict [(''object_id'', VString ''obj'')]])
   \<and> result_of (GetObjectIdByLocalIdOnThread Bookmark ''1''
         (snd (SaveSpecialJson ''b1'' ''[{"object_id": "obj"}]'' (fresh ''v1'')))) = Inr ''obj''
   \<and> result_of (GetOrderByLocalObjectIdOnThread Bookmark ''1''
         (snd (SaveSpecialJson ''b1'' ''[{"object_id": "obj"}]'' (fresh ''v1'')))) = Inl NullDereference
   \<and> result_of (GetParsedDataByLocalId Bookmark ''1'' False True False
         (snd (SaveSpecialJson ''b1'' ''[{"object_id": "obj"}]'' (fresh ''v1'')))) = Inl NullDereference
   \<and> result_of (GetObjectIdByLocalIdOnThread Bookmark ''1''
         (snd (SaveSpecialJson ''b1'' ''[{"order": "1.1"}]'' (fresh ''v1'')))) = Inl NullDereference\<close>
  by (simp add: om_eval json_eval)

subsection \<open>C5: deleting by local id\<close>

text \<open>
  C5 fails on the code. A save of \<open>(c, L, O)\<close> by \<^verbatim>\<open>SaveObjectIdOnThread\<close> stores text that
  is not JSON (the missing quote of C3), so \<^verbatim>\<open>DeleteByLocalIdOnThread\<close> decodes no object
  id: it deletes the forward entry, reports success and leaves the reverse entry, and the
  reverse lookup of \<open>O\<close> still returns \<open>L\<close>. After the same save by
  \<^verbatim>\<open>SaveObjectIdAndOrderOnThread\<close>, which writes the key with both quotes, the delete
  removes both entries, nothing is left in the store, and both lookups return empty.
\<close>

theorem C5_reverse_entry_left:
  "fst (SaveObjectIdOnThread Bookmark ''1'' ''obj'' (fresh ''v1''))
   \<and> result_of (DeleteByLocalIdOnThread Bookmark ''1''
         (snd (SaveObjectIdOnThread Bookmark ''1'' ''obj'' (fresh ''v1'')))) = Inr True
   \<and> disk (state_of (DeleteByLocalIdOnThread Bookmark ''1''
         (snd (SaveObjectIdOnThread Bookmark ''1'' ''obj'' (fresh ''v1''))))) ''b1'' = None
   \<and> disk (state_of (DeleteByLocalIdOnThread Bookmark ''1''
         (snd (SaveObjectIdOnThread Bookmark ''1'' ''obj'' (fresh ''v1''))))) ''obj'' = Some ''b1''
   \<and> result_of (GetObjectIdByLocalIdOnThread Bookmark ''1''
         (state_of (DeleteByLocalIdOnThread Bookmark ''1''
            (snd (SaveObjectIdOnThread Bookmark ''1'' ''obj'' (fresh ''v1'')))))) = Inr []
   \<and> fst (GetLocalIdByObjectIdOnThread Bookmark ''obj''
         (state_of (DeleteByLocalIdOnThread Bookmark ''1''
            (snd (SaveObjectIdOnThread Bookmark ''1'' ''obj'' (fresh ''v1'')))))) = ''1''
   \<and> fst (SaveObjectIdAndOrderOnThread Bookmark ''1'' ''obj'' ''1.1'' (fresh ''v1''))
   \<and> result_of (DeleteByLocalIdOnThread Bookmark ''1''
         (snd (SaveObjectIdAndOrderOnThread Bookmark ''1'' ''obj'' ''1.1'' (fresh ''v1''))))
       = Inr True
   \<and> disk (state_of (DeleteByLocalIdOnThread Bookmark ''1''
         (snd (SaveObjectIdAndOrderOnThread Bookmark ''1'' ''obj'' ''1.1'' (fresh ''v1'')))))
       = Map.empty
   \<and> result_of (GetObjectIdByLocalIdOnThread Bookmark ''1''
         (state_of (DeleteByLocalIdOnThread Bookmark ''1''
            (snd (SaveObjectIdAndOrderOnThread Bookmark ''1'' ''obj'' ''1.1'' (fresh ''v1''))))))
       = Inr []
   \<and> fst (GetLocalIdByObjectIdOnThread Bookmark ''obj''
         (state_of (DeleteByLocalIdOnThread Bookmark ''1''
            (snd (SaveObjectIdAndOrderOnThread Bookmark ''1'' ''obj'' ''1.1'' (fresh ''v1''))))))
       = []"
  by (simp add: om_eval json_eval state_of_def)

subsection \<open>C6: updating the order\<close>

text \<open>
  C6 fails on the code. For a record saved by \<^verbatim>\<open>SaveObjectIdOnThread\<close>, which exists and
  carries a non-empty object id, \<^verbatim>\<open>UpdateOrderByLocalObjectIdOnThread\<close> returns false and
  rewrites nothing: the stored text is not JSON (the missing quote of C3), and the order
  read afterwards is empty. For the record that this save is meant to write, with an object
  id and no order, the update dereferences the null pointer that \<^verbatim>\<open>FindKey\<close> returns for
  the order (the missing check of C4). When the store cannot be opened, so that no record is
  found, the update does not return false: \<^verbatim>\<open>GetParsedDataByLocalId\<close> calls \<^verbatim>\<open>TraceAll\<close>,
  which dereferences the null \<^verbatim>\<open>level_db_\<close>. After a save by
  \<^verbatim>\<open>SaveObjectIdAndOrderOnThread\<close> the update does what the claim says: it returns true, and
  the object id read afterwards is the same and the order is the new one. It does so for a
  new order without a double quote; one with a double quote is written unescaped, the
  update returns true, and the record no longer decodes.
\<close>

theorem C6_update_order_fails:
  \<open>fst (SaveObjectIdOnThread Bookmark ''1'' ''obj'' (fresh ''v1''))
   \<and> result_of (UpdateOrderByLocalObjectIdOnThread Bookmark ''1'' ''1.2''
         (snd (SaveObjectIdOnThread Bookmark ''1'' ''obj'' (fresh ''v1'')))) = Inr False
   \<and> disk (state_of (UpdateOrderByLocalObjectIdOnThread Bookmark ''1'' ''1.2''
         (snd (SaveObjectIdOnThread Bookmark ''1'' ''obj'' (fresh ''v1''))))) ''b1''
       = Some ''[{"object_id": "obj", apiVersion": "v1"}]''
   \<and> result_of (GetOrderByLocalObjectIdOnThread Bookmark ''1''
         (state_of (UpdateOrderByLocalObjectIdOnThread Bookmark ''1'' ''1.2''
            (snd (SaveObjectIdOnThread Bookmark ''1'' ''obj'' (fresh ''v1'')))))) = Inr []
   \<and> fst (SaveSpecialJson ''b1'' ''[{"object_id": "obj"}]'' (fresh ''v1''))
   \<and> result_of (UpdateOrderByLocalObjectIdOnThread Bookmark ''1'' ''1.2''
         (snd (SaveSpecialJson ''b1'' ''[{"object_id": "obj"}]'' (fresh ''v1''))))
       = Inl NullDereference
   \<and> result_of (UpdateOrderByLocalObjectIdOnThread Bookmark ''1'' ''1.2'' (unopenable ''v1''))
       = Inl NullDereference
   \<and> fst (SaveObjectIdAndOrderOnThread Bookmark ''1'' ''obj'' ''1.1'' (fresh ''v1''))
   \<and> result_of (UpdateOrderByLocalObjectIdOnThread Bookmark ''1'' ''1.2''
         (snd (SaveObjectIdAndOrderOnThread Bookmark ''1'' ''obj'' ''1.1'' (fresh ''v1''))))
       = Inr True
   \<and> result_of (GetObjectIdByLocalIdOnThread Bookmark ''1''
         (state_of (UpdateOrderByLocalObjectIdOnThread Bookmark ''1'' ''1.2''
            (snd (SaveObjectIdAndOrderOnThread Bookmark ''1'' ''obj'' ''1.1'' (fresh ''v1''))))))
       = Inr ''obj''
   \<and> result_of (GetOrderByLocalObjectIdOnThread Bookmark ''1''
         (state_of (UpdateOrderByLocalObjectIdOnThread Bookmark ''1'' ''1.2''
            (snd (SaveObjectIdAndOrderOnThread Bookmark ''1'' ''obj'' ''1.1'' (fresh ''v1''))))))
       = Inr ''1.2''
   \<and> result_of (UpdateOrderByLocalObjectIdOnThread Bookmark ''1'' ''a"b''
         (snd (SaveObjectIdAndOrderOnThread Bookmark ''1'' ''obj'' ''1.1'' (fresh ''v1''))))
       = Inr True
   \<and> result_of (GetObjectIdByLocalIdOnThread Bookmark ''1''
         (state_of (UpdateOrderByLocalObjectIdOnThread Bookmark ''1'' ''a"b''
            (snd (SaveObjectIdAndOrderOnThread Bookmark ''1'' ''obj'' ''1.1'' (fresh ''v1''))))))
       = Inr []\<close>
  by (simp add: om_eval json_eval state_of_def unopenable_def)

subsection \<open>C7: removing ids from the not-synced set\<close>

text \<open>
  C7. Let the category \<open>c\<close> be Bookmark or History, the store be available and accept its
  puts and deletes, the given ids be distinct (they are a \<^verbatim>\<open>std::set\<close>), the text stored
  under the set's key decode to the set \<open>ex\<close>, and, when the action is the full-delete
  code, let the decode of the mapping record of each removed id not end the process. Then
  \<^verbatim>\<open>DeleteItems\<close> returns \<open>ex\<close> without the given ids and stores that set (a \<^verbatim>\<open>GetItems\<close>
  that follows returns it).

  With the full-delete action code, the store that the reduced set is then persisted to is
  the one that \<^verbatim>\<open>delete_by_local_id\<close>, with the category of the call, leaves when it is
  run for each removed id in turn, and for no other id. Afterwards the forward entry of
  every removed id is gone, and every entry is as it was but the set's key, the empty key
  (the second put of C10) and the entries of the removed records, which are the forward
  entry and the reverse entry under the non-empty object id that the stored record decodes
  to; so the mapping records of the given ids that were not in the set are as they were.
  When the forward and reverse keys of the removed records are separate, the store
  afterwards is exactly the store before without the entries of the removed records and
  with the set's key and the empty key written.

  With any other action code the store afterwards is the store before with the set's key
  and the empty key written, so every mapping record of the categories Bookmark and History
  is intact.
\<close>

theorem C7_delete_items:
  assumes "c \<noteq> Unset" "available s" "\<forall>k. db_writes s k" "distinct ids"
    and "DeserializeList (stored_text s (recordType c @ a)) = Inr ex"
    and "a = DELETE_RECORD \<longrightarrow>
         list_all (\<lambda>l. \<not> isl (GetParsedDataByLocalId c l True False False (s\<lparr>level_db := True\<rparr>)))
           (removed_ids ids ex)"
  shows "\<exists>s'. SaveGetDeleteNotSyncedRecordsOnThread c a ids DeleteItems s
                = Inr (fold remove1 ids ex, s')
            \<and> set (fold remove1 ids ex) = set ex - set ids
            \<and> SaveGetDeleteNotSyncedRecordsOnThread c a ids' GetItems s'
                = Inr (fold remove1 ids ex, s')
            \<and> (a = DELETE_RECORD \<longrightarrow>
                 (\<exists>s2. delete_each c (removed_ids ids ex) (s\<lparr>level_db := True\<rparr>) = Inr s2
                     \<and> SaveNotSyncedRecords (recordType c @ a) (fold remove1 ids ex) s2
                         = (True, s'))
                 \<and> (\<forall>l \<in> set (removed_ids ids ex). disk s' (ComposeRawLocalId c l) = None)
                 \<and> (\<forall>k. k \<noteq> recordType c @ a \<and> k \<noteq> []
                        \<and> k \<notin> (\<Union>l \<in> set (removed_ids ids ex). record_keys s c l)
                      \<longrightarrow> disk s' k = disk s k)
                 \<and> (separate s c (removed_ids ids ex) \<longrightarrow>
                      disk s' =
                        (disk s |` (- (\<Union>l \<in> set (removed_ids ids ex). record_keys s c l)))
                          (recordType c @ a \<mapsto> SerializeList (fold remove1 ids ex),
                           [] \<mapsto> recordType c @ a)))
            \<and> (a \<noteq> DELETE_RECORD \<longrightarrow>
                 disk s' = (disk s)(recordType c @ a \<mapsto> SerializeList (fold remove1 ids ex),
                                    [] \<mapsto> recordType c @ a)
                 \<and> (\<forall>c' l. c' \<noteq> Unset \<longrightarrow>
                       disk s' (ComposeRawLocalId c' l) = disk s (ComposeRawLocalId c' l)))"
proof -
  let ?key = "recordType c @ a"
  let ?rem = "fold remove1 ids ex"
  let ?o = "s\<lparr>level_db := True\<rparr>"
  let ?R = "removed_ids ids ex"
  let ?K = "\<Union>l \<in> set ?R. record_keys s c l"
  have key: "recordType c \<noteq> []"
    using assms(1) by (rule recordType_nonempty)
  have other: "ComposeRawLocalId c' l \<noteq> ?key \<and> ComposeRawLocalId c' l \<noteq> []"
    if "c' \<noteq> Unset" for c' l
    using that assms(1) by (cases c; cases c') simp_all
  have set: "is_set ex"
    using assms(5) by (rule DeserializeList_is_set)
  then have dex: "distinct ex"
    by (simp add: is_set_def)
  from set have rem: "is_set ?rem"
    by (rule is_set_fold_remove1)
  have elems: "set ?rem = set ex - set ids"
    using dex by (simp add: set_fold_remove1)
  have got: "GetNotSyncedRecords ?key s = Inr (ex, ?o)"
    using assms(2,5) by (simp add: GetNotSyncedRecords_def GetRawJsonByLocalId_available)
  have op: "level_db ?o" and wr: "\<forall>k. db_writes ?o k"
    using assms(3) by simp_all
  have rko: "reverse_key ?o c l = reverse_key s c l" for l
    by (simp add: reverse_key_def)
  have keyso: "record_keys ?o c l = record_keys s c l" for l
    by (simp add: record_keys_def rko)
  have sepo: "separate ?o c ?R = separate s c ?R"
    by (simp add: separate_def rko)
  have loop: "\<exists>s2. delete_items c (a = DELETE_RECORD) ids ex ?o = Inr (?rem, s2)
      \<and> level_db s2 \<and> db_writes s2 = db_writes s
      \<and> (a = DELETE_RECORD \<longrightarrow>
            delete_each c ?R ?o = Inr s2
            \<and> (\<forall>l \<in> set ?R. disk s2 (ComposeRawLocalId c l) = None)
            \<and> (\<forall>k. k \<notin> ?K \<longrightarrow> disk s2 k = disk s k)
            \<and> (separate s c ?R \<longrightarrow> disk s2 = disk s |` (- ?K)))
      \<and> (a \<noteq> DELETE_RECORD \<longrightarrow> s2 = ?o)"
  proof (cases "a = DELETE_RECORD")
    case True
    with assms(6) have
      "\<forall>l \<in> set ?R. \<not> isl (GetParsedDataByLocalId c l True False False ?o)"
      by (simp add: list_all_iff)
    then have nc: "\<forall>l \<in> set ?R.
        \<not> isl (decode_stored (disk ?o (ComposeRawLocalId c l)) True False False)"
      by (simp add: isl_GetParsedDataByLocalId [OF op])
    have dR: "distinct ?R"
      using assms(4) by (simp add: removed_ids_def)
    from delete_each_bounds [OF op wr nc] obtain s2 where
      e: "delete_each c ?R ?o = Inr s2" and l2: "level_db s2" and w2: "db_writes s2 = db_writes ?o"
      and g2: "\<forall>l \<in> set ?R. disk s2 (ComposeRawLocalId c l) = None"
      and o2: "\<forall>k. k \<notin> (\<Union>l \<in> set ?R. record_keys ?o c l) \<longrightarrow> disk s2 k = disk ?o k"
      by blast
    from o2 have o2': "\<forall>k. k \<notin> ?K \<longrightarrow> disk s2 k = disk s k"
      by (simp add: keyso)
    have d: "delete_items c True ids ex ?o = Inr (?rem, s2)"
      by (simp add: delete_items_delete_each [OF assms(4) dex] e)
    have x: "disk s2 = disk s |` (- ?K)" if "separate s c ?R"
    proof -
      from that have "separate ?o c ?R" by (simp add: sepo)
      from delete_each_disk [OF op wr dR nc this] e show ?thesis
        by (simp add: keyso)
    qed
    from True d l2 w2 e g2 o2' x show ?thesis
      by auto
  next
    case False
    then show ?thesis
      by (simp add: delete_items_keep)
  qed
  then obtain s2 where
    d: "delete_items c (a = DELETE_RECORD) ids ex ?o = Inr (?rem, s2)"
    and l2: "level_db s2" and w2: "db_writes s2 = db_writes s"
    and full: "a = DELETE_RECORD \<longrightarrow>
            delete_each c ?R ?o = Inr s2
            \<and> (\<forall>l \<in> set ?R. disk s2 (ComposeRawLocalId c l) = None)
            \<and> (\<forall>k. k \<notin> ?K \<longrightarrow> disk s2 k = disk s k)
            \<and> (separate s c ?R \<longrightarrow> disk s2 = disk s |` (- ?K))"
    and keep: "a \<noteq> DELETE_RECORD \<longrightarrow> s2 = ?o"
    by blast
  let ?s3 = "s2\<lparr>level_db := True, disk := (disk s2)(?key \<mapsto> SerializeList ?rem, [] \<mapsto> ?key)\<rparr>"
  have "available s2" "db_writes s2 ?key" "db_writes s2 []"
    using l2 w2 assms(3) by (simp_all add: available_def)
  then have sv: "SaveNotSyncedRecords ?key ?rem s2 = (True, ?s3)"
    by (simp add: SaveNotSyncedRecords_def SaveObjectIdRawJson_True)
  have run: "SaveGetDeleteNotSyncedRecordsOnThread c a ids DeleteItems s = Inr (?rem, ?s3)"
    by (simp add: SaveGetDeleteNotSyncedRecordsOnThread_def Let_def got d sv)
  have st: "stored_text ?s3 ?key = SerializeList ?rem"
    using key by (simp add: stored_text_def)
  have "available ?s3" "?s3\<lparr>level_db := True\<rparr> = ?s3"
    by (simp_all add: available_def)
  then have "GetNotSyncedRecords ?key ?s3 = Inr (?rem, ?s3)"
    by (simp add: GetNotSyncedRecords_def GetRawJsonByLocalId_available st
        DeserializeList_SerializeList [OF rem])
  then have again: "SaveGetDeleteNotSyncedRecordsOnThread c a ids' GetItems ?s3 = Inr (?rem, ?s3)"
    by (simp add: SaveGetDeleteNotSyncedRecordsOnThread_def Let_def)
  have del: "a = DELETE_RECORD \<longrightarrow>
      (\<exists>s2. delete_each c ?R ?o = Inr s2 \<and> SaveNotSyncedRecords ?key ?rem s2 = (True, ?s3))
      \<and> (\<forall>l \<in> set ?R. disk ?s3 (ComposeRawLocalId c l) = None)
      \<and> (\<forall>k. k \<noteq> ?key \<and> k \<noteq> [] \<and> k \<notin> ?K \<longrightarrow> disk ?s3 k = disk s k)
      \<and> (separate s c ?R \<longrightarrow>
            disk ?s3 = (disk s |` (- ?K))(?key \<mapsto> SerializeList ?rem, [] \<mapsto> ?key))"
  proof
    assume f: "a = DELETE_RECORD"
    with full have e: "delete_each c ?R ?o = Inr s2"
      and g2: "\<forall>l \<in> set ?R. disk s2 (ComposeRawLocalId c l) = None"
      and o2: "\<forall>k. k \<notin> ?K \<longrightarrow> disk s2 k = disk s k"
      and x2: "separate s c ?R \<longrightarrow> disk s2 = disk s |` (- ?K)"
      by simp_all
    have via: "\<exists>s2. delete_each c ?R ?o = Inr s2
        \<and> SaveNotSyncedRecords ?key ?rem s2 = (True, ?s3)"
      using e sv by blast
    have gone: "\<forall>l \<in> set ?R. disk ?s3 (ComposeRawLocalId c l) = None"
    proof
      fix l
      assume "l \<in> set ?R"
      with g2 have "disk s2 (ComposeRawLocalId c l) = None" by blast
      with other [OF assms(1), of l] show "disk ?s3 (ComposeRawLocalId c l) = None"
        by simp
    qed
    have frame: "\<forall>k. k \<noteq> ?key \<and> k \<noteq> [] \<and> k \<notin> ?K \<longrightarrow> disk ?s3 k = disk s k"
      using o2 by simp
    have exact: "separate s c ?R \<longrightarrow>
        disk ?s3 = (disk s |` (- ?K))(?key \<mapsto> SerializeList ?rem, [] \<mapsto> ?key)"
      using x2 by simp
    from via gone frame exact
    show "(\<exists>s2. delete_each c ?R ?o = Inr s2 \<and> SaveNotSyncedRecords ?key ?rem s2 = (True, ?s3))
      \<and> (\<forall>l \<in> set ?R. disk ?s3 (ComposeRawLocalId c l) = None)
      \<and> (\<forall>k. k \<noteq> ?key \<and> k \<noteq> [] \<and> k \<notin> ?K \<longrightarrow> disk ?s3 k = disk s k)
      \<and> (separate s c ?R \<longrightarrow>
            disk ?s3 = (disk s |` (- ?K))(?key \<mapsto> SerializeList ?rem, [] \<mapsto> ?key))"
      by (intro conjI)
  qed
  have frame: "a \<noteq> DELETE_RECORD \<longrightarrow>
      disk ?s3 = (disk s)(?key \<mapsto> SerializeList ?rem, [] \<mapsto> ?key)"
    using keep by simp
  have intact: "a \<noteq> DELETE_RECORD \<longrightarrow>
      (\<forall>c' l. c' \<noteq> Unset \<longrightarrow> disk ?s3 (ComposeRawLocalId c' l) = disk s (ComposeRawLocalId c' l))"
  proof (intro impI allI)
    fix c' l
    assume "a \<noteq> DELETE_RECORD" and "c' \<noteq> Unset"
    with keep other [of c' l]
    show "disk ?s3 (ComposeRawLocalId c' l) = disk s (ComposeRawLocalId c' l)"
      by simp
  qed
  from run elems again del frame intact show ?thesis
    by blast
qed

theorem C7_delete_items_witness:
  \<open>Bookmark \<noteq> Unset \<and> available example_store \<and> (\<forall>k. db_writes example_store k)
   \<and> distinct [''1'', ''3'']
   \<and> DeserializeList (stored_text example_store (recordType Bookmark @ DELETE_RECORD))
       = Inr [''1'', ''2'']
   \<and> removed_ids [''1'', ''3''] [''1'', ''2''] = [''1'']
   \<and> \<not> isl (GetParsedDataByLocalId Bookmark ''1'' True False False
              (example_store\<lparr>level_db := True\<rparr>))
   \<and> separate example_store Bookmark [''1'']
   \<and> record_keys example_store Bookmark ''1'' = {''b1'', ''o1''}
   \<and> result_of (SaveGetDeleteNotSyncedRecordsOnThread Bookmark DELETE_RECORD [''1'', ''3'']
         DeleteItems example_store) = Inr [''2'']
   \<and> disk (state_of (SaveGetDeleteNotSyncedRecordsOnThread Bookmark DELETE_RECORD [''1'', ''3'']
         DeleteItems example_store)) ''b1'' = None
   \<and> disk (state_of (SaveGetDeleteNotSyncedRecordsOnThread Bookmark DELETE_RECORD [''1'', ''3'']
         DeleteItems example_store)) ''o1'' = None
   \<and> disk (state_of (SaveGetDeleteNotSyncedRecordsOnThread Bookmark DELETE_RECORD [''1'', ''3'']
         DeleteItems example_store)) ''b3'' = disk example_store ''b3''
   \<and> disk (state_of (SaveGetDeleteNotSyncedRecordsOnThread Bookmark DELETE_RECORD [''1'', ''3'']
         DeleteItems example_store)) ''o3'' = Some ''b3''
   \<and> disk (state_of (SaveGetDeleteNotSyncedRecordsOnThread Bookmark DELETE_RECORD [''1'', ''3'']
         DeleteItems example_store)) ''BOOKMARKS2'' = Some ''["2"]''
   \<and> DeserializeList (stored_text example_store (recordType Bookmark @ ''1'')) = Inr [''1'']
   \<and> ''1'' \<noteq> DELETE_RECORD
   \<and> result_of (SaveGetDeleteNotSyncedRecordsOnThread Bookmark ''1'' [''1'', ''3''] DeleteItems
         example_store) = Inr []
   \<and> disk (state_of (SaveGetDeleteNotSyncedRecordsOnThread Bookmark ''1'' [''1'', ''3'']
         DeleteItems example_store)) ''b1'' = disk example_store ''b1''
   \<and> disk (state_of (SaveGetDeleteNotSyncedRecordsOnThread Bookmark ''1'' [''1'', ''3'']
         DeleteItems example_store)) ''o1'' = Some ''b1''\<close>
proof -
  let ?s = example_store
  let ?ids = "[''1'', ''3'']"
  have h: "Bookmark \<noteq> Unset" "available ?s" "\<forall>k. db_writes ?s k" "distinct ?ids"
    by (simp_all add: example_store_def available_def)
  have d2: "DeserializeList (stored_text ?s (recordType Bookmark @ DELETE_RECORD))
      = Inr [''1'', ''2'']"
  proof -
    have \<open>JSONReader_Read ''["1","2"]'' = Some (VList [VString ''1'', VString ''2''])\<close>
      by (simp add: json_eval)
    then show ?thesis
      unfolding DeserializeList_def
      by (simp add: example_store_def stored_text_def DELETE_RECORD_def)
        (simp add: set_insert_def)
  qed
  have d1: "DeserializeList (stored_text ?s (recordType Bookmark @ ''1'')) = Inr [''1'']"
  proof -
    have \<open>JSONReader_Read ''["1"]'' = Some (VList [VString ''1''])\<close>
      by (simp add: json_eval)
    then show ?thesis
      unfolding DeserializeList_def
      by (simp add: example_store_def stored_text_def) (simp add: set_insert_def)
  qed
  have r2: "removed_ids ?ids [''1'', ''2''] = [''1'']"
    and r1: "removed_ids ?ids [''1''] = [''1'']"
    by (simp_all add: removed_ids_def)
  have n: "\<not> isl (GetParsedDataByLocalId Bookmark ''1'' True False False (?s\<lparr>level_db := True\<rparr>))"
    by (simp add: example_store_def om_eval json_eval)
  have rk: "reverse_key ?s Bookmark ''1'' = Some ''o1''"
    by (simp add: reverse_key_def decode_stored_def example_store_def read_field_def json_eval)
  then have sep: "separate ?s Bookmark [''1'']"
    and keys: "record_keys ?s Bookmark ''1'' = {''b1'', ''o1''}"
    by (simp_all add: separate_def record_keys_def)
  have ne: "''1'' \<noteq> DELETE_RECORD"
    by (simp add: DELETE_RECORD_def)
  have w: \<open>SerializeList [''2''] = ''["2"]''\<close>
    by (simp add: SerializeList_def EscapeJSONString_def EscapeSpecialCodePoint_def less_char_def)
  from n have n2: "DELETE_RECORD = DELETE_RECORD \<longrightarrow>
      list_all (\<lambda>l. \<not> isl (GetParsedDataByLocalId Bookmark l True False False
        (?s\<lparr>level_db := True\<rparr>))) (removed_ids ?ids [''1'', ''2''])"
    by (simp add: r2)
  from C7_delete_items [OF h d2 n2, of "[]"] obtain s' where
    r: "SaveGetDeleteNotSyncedRecordsOnThread Bookmark DELETE_RECORD ?ids DeleteItems ?s
        = Inr (fold remove1 ?ids [''1'', ''2''], s')"
    and g0: "DELETE_RECORD = DELETE_RECORD \<longrightarrow>
        (\<exists>s2. delete_each Bookmark (removed_ids ?ids [''1'', ''2'']) (?s\<lparr>level_db := True\<rparr>) = Inr s2
            \<and> SaveNotSyncedRecords (recordType Bookmark @ DELETE_RECORD)
                  (fold remove1 ?ids [''1'', ''2'']) s2 = (True, s'))
        \<and> (\<forall>l \<in> set (removed_ids ?ids [''1'', ''2'']). disk s' (ComposeRawLocalId Bookmark l) = None)
        \<and> (\<forall>k. k \<noteq> recordType Bookmark @ DELETE_RECORD \<and> k \<noteq> []
               \<and> k \<notin> (\<Union>l \<in> set (removed_ids ?ids [''1'', ''2'']). record_keys ?s Bookmark l)
             \<longrightarrow> disk s' k = disk ?s k)
        \<and> (separate ?s Bookmark (removed_ids ?ids [''1'', ''2'']) \<longrightarrow>
        disk s' =
          (disk ?s |` (- (\<Union>l \<in> set (removed_ids ?ids [''1'', ''2'']). record_keys ?s Bookmark l)))
            (recordType Bookmark @ DELETE_RECORD \<mapsto> SerializeList (fold remove1 ?ids [''1'', ''2'']),
             [] \<mapsto> recordType Bookmark @ DELETE_RECORD))"
    by (elim exE conjE)
  from g0 sep have g: \<open>disk s' =
      (disk ?s |` (- {''b1'', ''o1''}))(''BOOKMARKS2'' \<mapsto> ''["2"]'', [] \<mapsto> ''BOOKMARKS2'')\<close>
    by (simp add: r2 keys w DELETE_RECORD_def)
  have a1: "result_of (SaveGetDeleteNotSyncedRecordsOnThread Bookmark DELETE_RECORD ?ids
      DeleteItems ?s) = Inr [''2'']"
    by (simp add: r result_of_def)
  have st: "state_of (SaveGetDeleteNotSyncedRecordsOnThread Bookmark DELETE_RECORD ?ids
      DeleteItems ?s) = s'"
    by (simp add: r state_of_def)
  have a2: "disk (state_of (SaveGetDeleteNotSyncedRecordsOnThread Bookmark DELETE_RECORD ?ids
        DeleteItems ?s)) ''b1'' = None"
    "disk (state_of (SaveGetDeleteNotSyncedRecordsOnThread Bookmark DELETE_RECORD ?ids
        DeleteItems ?s)) ''o1'' = None"
    "disk (state_of (SaveGetDeleteNotSyncedRecordsOnThread Bookmark DELETE_RECORD ?ids
        DeleteItems ?s)) ''b3'' = disk ?s ''b3''"
    "disk (state_of (SaveGetDeleteNotSyncedRecordsOnThread Bookmark DELETE_RECORD ?ids
        DeleteItems ?s)) ''o3'' = Some ''b3''"
    \<open>disk (state_of (SaveGetDeleteNotSyncedRecordsOnThread Bookmark DELETE_RECORD ?ids
        DeleteItems ?s)) ''BOOKMARKS2'' = Some ''["2"]''\<close>
    unfolding st g by (simp_all add: example_store_def)
  from ne have n1: "''1'' = DELETE_RECORD \<longrightarrow>
      list_all (\<lambda>l. \<not> isl (GetParsedDataByLocalId Bookmark l True False False
        (?s\<lparr>level_db := True\<rparr>))) (removed_ids ?ids [''1''])"
    by simp
  from C7_delete_items [OF h d1 n1, of "[]"] obtain s'' where
    r': "SaveGetDeleteNotSyncedRecordsOnThread Bookmark ''1'' ?ids DeleteItems ?s
        = Inr (fold remove1 ?ids [''1''], s'')"
    and k0: "''1'' \<noteq> DELETE_RECORD \<longrightarrow>
        disk s'' = (disk ?s)(recordType Bookmark @ ''1'' \<mapsto> SerializeList (fold remove1 ?ids [''1'']),
                             [] \<mapsto> recordType Bookmark @ ''1'')
        \<and> (\<forall>c' l. c' \<noteq> Unset \<longrightarrow>
              disk s'' (ComposeRawLocalId c' l) = disk ?s (ComposeRawLocalId c' l))"
    by (elim exE conjE)
  from k0 ne have k: "disk s'' = (disk ?s)(recordType Bookmark @ ''1''
        \<mapsto> SerializeList (fold remove1 ?ids [''1'']), [] \<mapsto> recordType Bookmark @ ''1'')"
    by simp
  have st': "state_of (SaveGetDeleteNotSyncedRecordsOnThread Bookmark ''1'' ?ids DeleteItems ?s) = s''"
    by (simp add: r' state_of_def)
  have b1: "result_of (SaveGetDeleteNotSyncedRecordsOnThread Bookmark ''1'' ?ids DeleteItems ?s)
      = Inr []"
    by (simp add: r' result_of_def)
  have b2: "disk (state_of (SaveGetDeleteNotSyncedRecordsOnThread Bookmark ''1'' ?ids
        DeleteItems ?s)) ''b1'' = disk ?s ''b1''"
    "disk (state_of (SaveGetDeleteNotSyncedRecordsOnThread Bookmark ''1'' ?ids
        DeleteItems ?s)) ''o1'' = Some ''b1''"
    unfolding st' k by (simp_all add: example_store_def)
  show ?thesis
    by (intro conjI) (fact h d2 r2 n sep keys a1 a2 d1 ne b1 b2)+
qed

subsection \<open>C8: reading and extending the not-synced set\<close>

text \<open>
  C8. Let the category be Bookmark or History, the store be available and accept the writes
  of the set's key and of the empty key, and let the text stored under the set's key decode
  to the set \<open>ex\<close> (text that is absent or not JSON decodes to the empty set). Then
  \<^verbatim>\<open>GetItems\<close> returns \<open>ex\<close> and leaves the contents of the store as they were;
  \<^verbatim>\<open>AddItems\<close> returns the union of \<open>ex\<close> and the given ids, stores its serialization
  under the set's key, and a \<^verbatim>\<open>GetItems\<close> that follows returns that union; and adding
  ids that are all in \<open>ex\<close> already returns \<open>ex\<close> itself, of the same size.
\<close>

theorem C8_get_and_add:
  assumes "c \<noteq> Unset" "available s"
    and "db_writes s (recordType c @ a)" "db_writes s []"
    and "DeserializeList (stored_text s (recordType c @ a)) = Inr ex"
  shows "SaveGetDeleteNotSyncedRecordsOnThread c a ids GetItems s = Inr (ex, s\<lparr>level_db := True\<rparr>)
       \<and> (\<exists>s'. SaveGetDeleteNotSyncedRecordsOnThread c a ids AddItems s
                  = Inr (fold set_insert ids ex, s')
              \<and> disk s' = (disk s)(recordType c @ a \<mapsto> SerializeList (fold set_insert ids ex),
                                    [] \<mapsto> recordType c @ a)
              \<and> SaveGetDeleteNotSyncedRecordsOnThread c a ids' GetItems s'
                  = Inr (fold set_insert ids ex, s'))
       \<and> set (fold set_insert ids ex) = set ex \<union> set ids
       \<and> (set ids \<subseteq> set ex \<longrightarrow>
            fold set_insert ids ex = ex \<and> length (fold set_insert ids ex) = length ex)"
proof -
  let ?key = "recordType c @ a"
  let ?added = "fold set_insert ids ex"
  let ?o = "s\<lparr>level_db := True\<rparr>"
  let ?s' = "s\<lparr>level_db := True, disk := (disk s)(?key \<mapsto> SerializeList ?added, [] \<mapsto> ?key)\<rparr>"
  have key: "recordType c \<noteq> []"
    using assms(1) by (cases c) simp_all
  have got: "GetNotSyncedRecords ?key s = Inr (ex, ?o)"
    using assms(2,5) by (simp add: GetNotSyncedRecords_def GetRawJsonByLocalId_available)
  have get: "SaveGetDeleteNotSyncedRecordsOnThread c a ids GetItems s = Inr (ex, ?o)"
    by (simp add: SaveGetDeleteNotSyncedRecordsOnThread_def Let_def got)
  have "available ?o" "db_writes ?o ?key" "db_writes ?o []"
    using assms(3,4) by (simp_all add: available_def)
  then have sv: "SaveNotSyncedRecords ?key ?added ?o = (True, ?s')"
    by (simp add: SaveNotSyncedRecords_def SaveObjectIdRawJson_True)
  have add: "SaveGetDeleteNotSyncedRecordsOnThread c a ids AddItems s = Inr (?added, ?s')"
    by (simp add: SaveGetDeleteNotSyncedRecordsOnThread_def Let_def got sv)
  have "is_set ex"
    using assms(5) by (rule DeserializeList_is_set)
  then have "is_set ?added"
    by (rule is_set_fold_set_insert)
  then have rt: "DeserializeList (SerializeList ?added) = Inr ?added"
    by (rule DeserializeList_SerializeList)
  have st: "stored_text ?s' ?key = SerializeList ?added"
    using key by (simp add: stored_text_def)
  have "available ?s'" "?s'\<lparr>level_db := True\<rparr> = ?s'"
    by (simp_all add: available_def)
  then have "GetNotSyncedRecords ?key ?s' = Inr (?added, ?s')"
    by (simp add: GetNotSyncedRecords_def GetRawJsonByLocalId_available st rt)
  then have again: "SaveGetDeleteNotSyncedRecordsOnThread c a ids' GetItems ?s' = Inr (?added, ?s')"
    by (simp add: SaveGetDeleteNotSyncedRecordsOnThread_def Let_def)
  have "disk ?s' = (disk s)(?key \<mapsto> SerializeList ?added, [] \<mapsto> ?key)"
    by simp
  with add again have ex: "\<exists>s'. SaveGetDeleteNotSyncedRecordsOnThread c a ids AddItems s
                  = Inr (?added, s')
              \<and> disk s' = (disk s)(?key \<mapsto> SerializeList ?added, [] \<mapsto> ?key)
              \<and> SaveGetDeleteNotSyncedRecordsOnThread c a ids' GetItems s' = Inr (?added, s')"
    by blast
  have idem: "set ids \<subseteq> set ex \<longrightarrow> ?added = ex \<and> length ?added = length ex"
    by (simp add: fold_set_insert_idem)
  from get ex idem show ?thesis by simp
qed

theorem C8_get_and_add_witness:
  "Bookmark \<noteq> Unset \<and> available (fresh ''v1'')
   \<and> db_writes (fresh ''v1'') (recordType Bookmark @ ''1'') \<and> db_writes (fresh ''v1'') []
   \<and> DeserializeList (stored_text (fresh ''v1'') (recordType Bookmark @ ''1'')) = Inr []
   \<and> result_of (SaveGetDeleteNotSyncedRecordsOnThread Bookmark ''1'' [''7'', ''12''] GetItems
         (fresh ''v1'')) = Inr []
   \<and> result_of (SaveGetDeleteNotSyncedRecordsOnThread Bookmark ''1'' [''7'', ''12''] AddItems
         (fresh ''v1'')) = Inr [''12'', ''7'']
   \<and> result_of (SaveGetDeleteNotSyncedRecordsOnThread Bookmark ''1'' [] GetItems
         (state_of (SaveGetDeleteNotSyncedRecordsOnThread Bookmark ''1'' [''7'', ''12''] AddItems
            (fresh ''v1'')))) = Inr [''12'', ''7'']"
proof -
  let ?s = "fresh ''v1''"
  have h: "Bookmark \<noteq> Unset" "available ?s"
    "db_writes ?s (recordType Bookmark @ ''1'')" "db_writes ?s []"
    by (simp_all add: fresh_def available_def)
  have d: "DeserializeList (stored_text ?s (recordType Bookmark @ ''1'')) = Inr []"
    by (simp add: fresh_def stored_text_def DeserializeList_def)
  have f: "fold set_insert [''7'', ''12''] [] = [''12'', ''7'']"
    by (simp add: set_insert_def)
  note t = C8_get_and_add [OF h d, of "[''7'', ''12'']" "[]", unfolded f]
  from t have g: "result_of (SaveGetDeleteNotSyncedRecordsOnThread Bookmark ''1'' [''7'', ''12'']
      GetItems ?s) = Inr []"
    by (simp add: result_of_def)
  from t obtain s' where
    a: "SaveGetDeleteNotSyncedRecordsOnThread Bookmark ''1'' [''7'', ''12''] AddItems ?s
        = Inr ([''12'', ''7''], s')"
    and b: "SaveGetDeleteNotSyncedRecordsOnThread Bookmark ''1'' [] GetItems s'
        = Inr ([''12'', ''7''], s')"
    by blast
  from a b have
    "result_of (SaveGetDeleteNotSyncedRecordsOnThread Bookmark ''1'' [''7'', ''12''] AddItems ?s)
       = Inr [''12'', ''7'']"
    "result_of (SaveGetDeleteNotSyncedRecordsOnThread Bookmark ''1'' [] GetItems
       (state_of (SaveGetDeleteNotSyncedRecordsOnThread Bookmark ''1'' [''7'', ''12''] AddItems ?s)))
       = Inr [''12'', ''7'']"
    by (simp_all add: result_of_def state_of_def)
  with h d g show ?thesis by simp
qed

subsection \<open>C9: sequencing\<close>

text \<open>
  C9 is about the sequenced task runner: that the tasks of the object map run one after the
  other and in the order of their posting. The functions above are the bodies of those
  tasks; their composition in a given order is all this development models. That the
  second of two saves of one local id determines the order read afterwards is the statement
  of C2 for the second save.
\<close>

subsection \<open>C10: the second put under the empty key\<close>

text \<open>
  C10: \<^verbatim>\<open>SaveSpecialJson\<close> and \<^verbatim>\<open>SaveNotSyncedRecords\<close> call
  \<^verbatim>\<open>SaveObjectIdRawJson\<close> with the empty object id. When the store is available and
  accepts the write of the intended key, the second put is made under the empty key with
  the raw key as its value: if it is accepted the call succeeds and the store holds both
  entries, otherwise the call fails with the first entry in place.
\<close>

theorem C10_second_put_under_empty_key:
  assumes "available s" "db_writes s key"
  shows "SaveSpecialJson key json s =
           (if db_writes s [] then
              (True, s\<lparr>level_db := True, disk := (disk s)(key \<mapsto> json, [] \<mapsto> key)\<rparr>)
            else (False, s\<lparr>level_db := True, disk := (disk s)(key \<mapsto> json)\<rparr>))
       \<and> SaveNotSyncedRecords key ids s =
           (if db_writes s [] then
              (True, s\<lparr>level_db := True,
                       disk := (disk s)(key \<mapsto> SerializeList ids, [] \<mapsto> key)\<rparr>)
            else (False, s\<lparr>level_db := True, disk := (disk s)(key \<mapsto> SerializeList ids)\<rparr>))"
  using assms
  by (simp add: SaveSpecialJson_def SaveNotSyncedRecords_def SaveObjectIdRawJson_def
      CreateOpenDatabase_available Put_def)

theorem C10_second_put_under_empty_key_witness:
  \<open>available (fresh ''v1'') \<and> db_writes (fresh ''v1'') ''k''
   \<and> fst (SaveSpecialJson ''k'' ''{"a": 1}'' (fresh ''v1''))
   \<and> disk (snd (SaveSpecialJson ''k'' ''{"a": 1}'' (fresh ''v1''))) [] = Some ''k''
   \<and> disk (snd (SaveSpecialJson ''k'' ''{"a": 1}'' (fresh ''v1''))) ''k'' = Some ''{"a": 1}''
   \<and> disk (snd (SaveNotSyncedRecords ''BOOKMARKS0'' [''7''] (fresh ''v1''))) [] = Some ''BOOKMARKS0''\<close>
proof -
  have a: "available (fresh ''v1'')" "db_writes (fresh ''v1'') ''k''"
    "db_writes (fresh ''v1'') ''BOOKMARKS0''"
    by (simp_all add: fresh_def available_def)
  from C10_second_put_under_empty_key [OF a(1,2), of \<open>''{"a": 1}''\<close>]
    C10_second_put_under_empty_key [OF a(1,3), of _ "[''7'']"] a
  show ?thesis by (simp add: fresh_def)
qed

end
